theory Spec2Isabelle
  imports Main "HOL-Library.Sublist" "HOL-Library.Word"
begin

section \<open>kroki2md: diagram files to Kroki links in a markdown document\<close>

text \<open>
  A shallow embedding of \<^verbatim>\<open>src/kroki2md/kroki2md.py\<close>. Python \<^verbatim>\<open>str\<close> values are
  \<^typ>\<open>string\<close>s; a text is held by its UTF-8 code units, one \<^typ>\<open>char\<close> each, which is
  faithful for every string operation the program uses (concatenation, \<^verbatim>\<open>in\<close>,
  \<^verbatim>\<open>split\<close> on an ASCII separator, equality as a dictionary key). Python \<^verbatim>\<open>bytes\<close> are
  lists of 8-bit words. Exceptions are values of type \<open>error\<close>; the file system and the console
  are fields of an explicit \<open>world\<close> that every effectful function takes and returns, also
  when it raises. Argument parsing, \<^verbatim>\<open>print_configuration\<close> and \<^verbatim>\<open>main\<close>, which hands the
  parsed arguments to \<^verbatim>\<open>convert\<close> and the mapping to \<^verbatim>\<open>update_markdown_file\<close>, are left
  out.
\<close>

subsection \<open>Errors, console and files\<close>

datatype error =
    FileNotFoundError string
  | UnboundLocalError string
  | UnicodeDecodeError

datatype colour = Blue | Yellow | Green | Red

text \<open>One call of \<^verbatim>\<open>print\<close>: the text and, for \<^verbatim>\<open>print(colored(text, c))\<close>, the colour.\<close>

datatype out = plain string | colored string colour

record world =
  files :: "string \<rightharpoonup> string"
  console :: "out list"

definition print :: "out \<Rightarrow> world \<Rightarrow> world" where
  "print x w = w\<lparr>console := console w @ [x]\<rparr>"

text \<open>
  \<^verbatim>\<open>with open(file_name, "r") as f\<close>: a path that is not in the file system raises;
  \<^verbatim>\<open>open(file_name, "w")\<close> followed by \<^verbatim>\<open>f.writelines(final)\<close> replaces the whole content
  by the concatenation of the lines. A file holds the text Python reads from it; failures of
  the operating system other than a missing file are not modelled.
\<close>

definition open_read :: "string \<Rightarrow> world \<Rightarrow> error + string" where
  "open_read file_name w =
     (case files w file_name of
        None \<Rightarrow> Inl (FileNotFoundError file_name)
      | Some text \<Rightarrow> Inr text)"

definition writelines :: "string \<Rightarrow> string list \<Rightarrow> world \<Rightarrow> world" where
  "writelines file_name lines w = w\<lparr>files := (files w)(file_name \<mapsto> concat lines)\<rparr>"

subsection \<open>Strings\<close>

definition newline :: char where
  "newline = CHR 0x0A"

definition tab :: char where
  "tab = CHR 0x09"

text \<open>\<^verbatim>\<open>s.split(sep)\<close> for a one-character separator: the pieces between the separators.\<close>

fun split_acc :: "char \<Rightarrow> string \<Rightarrow> string \<Rightarrow> string list" where
  "split_acc sep cur [] = [cur]"
| "split_acc sep cur (c # cs) =
     (if c = sep then cur # split_acc sep [] cs else split_acc sep (cur @ [c]) cs)"

definition split :: "string \<Rightarrow> char \<Rightarrow> string list" where
  "split s sep = split_acc sep [] s"

text \<open>\<^verbatim>\<open>f.readlines()\<close>: the lines of a text, each with its terminator.\<close>

fun readlines_acc :: "string \<Rightarrow> string \<Rightarrow> string list" where
  "readlines_acc cur [] = (if cur = [] then [] else [cur])"
| "readlines_acc cur (c # cs) =
     (if c = newline then (cur @ [c]) # readlines_acc [] cs else readlines_acc (cur @ [c]) cs)"

definition readlines :: "string \<Rightarrow> string list" where
  "readlines text = readlines_acc [] text"

text \<open>\<^verbatim>\<open>str(n)\<close> of a non-negative integer, as the f-strings print it.\<close>

definition digit :: "nat \<Rightarrow> char" where
  "digit d = char_of (48 + d)"

function str :: "nat \<Rightarrow> string" where
  "str n = (if n < 10 then [digit n] else str (n div 10) @ [digit (n mod 10)])"
  by pat_completeness auto
termination
  by (relation "measure id") auto

text \<open>The two templates of the module, with \<^verbatim>\<open>str.format\<close> applied.\<close>

definition korki_url_format :: "string \<Rightarrow> string \<Rightarrow> string \<Rightarrow> string" where
  "korki_url_format type format data = ''https://kroki.io/'' @ type @ ''/'' @ format @ ''/'' @ data"

definition markdown_format :: "string \<Rightarrow> string \<Rightarrow> string" where
  "markdown_format file_name url = ''!['' @ file_name @ '']('' @ url @ '')'' @ [newline]"

definition diagram_types :: "(string \<times> string) list" where
  "diagram_types = [(''.mmd'', ''mermaid'')]"

subsection \<open>Dictionaries\<close>

text \<open>
  A Python \<^verbatim>\<open>dict\<close> iterates in insertion order, and assigning to a key that is present
  replaces its value where the key stands. The model is an association list in iteration
  order.
\<close>

type_synonym dict = "(string \<times> string) list"

fun setitem :: "dict \<Rightarrow> string \<Rightarrow> string \<Rightarrow> dict" where
  "setitem [] k v = [(k, v)]"
| "setitem ((k', v') # d) k v = (if k' = k then (k, v) # d else (k', v') # setitem d k v)"

subsection \<open>The substitutor\<close>

text \<open>
  \<^verbatim>\<open>check_line\<close>: the loop over \<^verbatim>\<open>replacements.items()\<close>. The local \<^verbatim>\<open>req\<close> is unbound
  (\<open>None\<close>) until an iteration assigns it; a match assigns the formatted line and breaks,
  a miss assigns the line itself and goes on. Returning an unbound local raises.
\<close>

fun check_line_loop ::
  "string \<Rightarrow> nat \<Rightarrow> dict \<Rightarrow> int \<Rightarrow> string option \<Rightarrow> world \<Rightarrow> string option \<times> world" where
  "check_line_loop line index [] verbosity req w = (req, w)"
| "check_line_loop line index ((key, val) # rest) verbosity req w =
     (if sublist (''!['' @ key @ '']'') line then
        let req' = markdown_format key val;
            w1 = (if verbosity \<ge> 2
                  then print (colored (''@Line '' @ str (index + 1) @ '':'') Blue) w else w);
            w2 = (if verbosity \<ge> 3
                  then print (colored (''++ '' @ req') Green) (print (colored (''-- '' @ line) Red) w1)
                  else w1)
        in (Some req', w2)
      else check_line_loop line index rest verbosity (Some line) w)"

definition check_line :: "string \<Rightarrow> nat \<Rightarrow> dict \<Rightarrow> int \<Rightarrow> world \<Rightarrow> (error + string) \<times> world" where
  "check_line line index replacements verbosity w =
     (case check_line_loop line index replacements verbosity None w of
        (None, w') \<Rightarrow> (Inl (UnboundLocalError ''req''), w')
      | (Some req, w') \<Rightarrow> (Inr req, w'))"

text \<open>
  The per-line loop of \<^verbatim>\<open>update_markdown_file\<close>: \<^verbatim>\<open>final\<close> grows by one line for each
  line of \<^verbatim>\<open>data\<close>; an exception of \<^verbatim>\<open>check_line\<close> leaves the loop.
\<close>

fun substitute ::
  "string list \<Rightarrow> nat \<Rightarrow> dict \<Rightarrow> int \<Rightarrow> string list \<Rightarrow> world \<Rightarrow> (error + string list) \<times> world" where
  "substitute [] index replacements verbosity final w = (Inr final, w)"
| "substitute (line # rest) index replacements verbosity final w =
     (case check_line line index replacements verbosity w of
        (Inl e, w1) \<Rightarrow> (Inl e, w1)
      | (Inr req, w1) \<Rightarrow>
          substitute rest (index + 1) replacements verbosity (final @ [req]) (print (plain req) w1))"

definition update_markdown_file ::
  "string \<Rightarrow> dict \<Rightarrow> bool \<Rightarrow> int \<Rightarrow> world \<Rightarrow> (error + unit) \<times> world" where
  "update_markdown_file file_name replacements dry_run verbosity w =
     (let w1 = (if verbosity \<ge> 1
                then print (colored (''Finding Update Points in '' @ file_name @ '':'') Blue) w
                else w)
      in case open_read file_name w1 of
           Inl e \<Rightarrow> (Inl e, w1)
         | Inr text \<Rightarrow>
            (case substitute (readlines text) 0 replacements verbosity [] w1 of
               (Inl e, w2) \<Rightarrow> (Inl e, w2)
             | (Inr final, w2) \<Rightarrow>
                 let w3 = (if verbosity \<ge> 1
                           then print (plain [])
                                  (print (colored (''Found '' @ str (length replacements)
                                                   @ '' Update Points'') Blue) w2)
                           else w2)
                 in if \<not> dry_run then
                      let w4 = (if verbosity \<ge> 1
                                then print (colored (''Updating '' @ file_name) Blue) w3 else w3);
                          w5 = writelines file_name final w4;
                          w6 = (if verbosity \<ge> 1
                                then print (plain [])
                                       (print (colored (''Updated '' @ file_name) Green) w5)
                                else w5)
                      in (Inr (), w6)
                    else
                      (Inr (),
                       print (plain [])
                         (print (colored (''This was a dry run.'' @ [newline, tab]
                                   @ ''Please run the same command without '-d' flag'') Yellow)
                            w3))))"

subsection \<open>The encoder\<close>

type_synonym byte = "8 word"

text \<open>
  \<^verbatim>\<open>data.encode("utf-8")\<close> reads off the code units of the text;
  \<^verbatim>\<open>bytes.decode("ascii")\<close> raises on a byte above 127.
\<close>

definition encode_utf8 :: "string \<Rightarrow> byte list" where
  "encode_utf8 s = map (\<lambda>c. of_nat (of_char c)) s"

definition decode_ascii :: "byte list \<Rightarrow> error + string" where
  "decode_ascii bs =
     (if list_all (\<lambda>b. unat b < 128) bs then Inr (map (\<lambda>b. char_of (unat b)) bs)
      else Inl UnicodeDecodeError)"

text \<open>
  Modelled from the spec: \<^verbatim>\<open>base64.urlsafe_b64encode\<close> of the Python standard library,
  which is not part of the repository. The spec fixes it as standard base64 (RFC 4648, three
  bytes to four symbols, \<^verbatim>\<open>=\<close> padding) with \<^verbatim>\<open>-\<close> and \<^verbatim>\<open>_\<close> for \<^verbatim>\<open>+\<close> and \<^verbatim>\<open>/\<close>; the
  library computes it as the standard encoding followed by that translation, and so does
  the model.
\<close>

definition b64_table :: "byte list" where
  "b64_table =
     encode_utf8 ''ABCDEFGHIJKLMNOPQRSTUVWXYZabcdefghijklmnopqrstuvwxyz0123456789+/''"

definition b64_pad :: byte where
  "b64_pad = 61"

definition b64_sym :: "nat \<Rightarrow> byte" where
  "b64_sym i = b64_table ! (i mod 64)"

fun b64encode :: "byte list \<Rightarrow> byte list" where
  "b64encode [] = []"
| "b64encode [a] =
     (let n = unat a * 65536
      in [b64_sym (n div 262144), b64_sym (n div 4096), b64_pad, b64_pad])"
| "b64encode [a, b] =
     (let n = unat a * 65536 + unat b * 256
      in [b64_sym (n div 262144), b64_sym (n div 4096), b64_sym (n div 64), b64_pad])"
| "b64encode (a # b # c # rest) =
     (let n = unat a * 65536 + unat b * 256 + unat c
      in [b64_sym (n div 262144), b64_sym (n div 4096), b64_sym (n div 64), b64_sym n]
         @ b64encode rest)"

definition urlsafe_translate :: "byte \<Rightarrow> byte" where
  "urlsafe_translate b = (if b = 43 then 45 else if b = 47 then 95 else b)"

definition urlsafe_b64encode :: "byte list \<Rightarrow> byte list" where
  "urlsafe_b64encode s = map urlsafe_translate (b64encode s)"

text \<open>
  \<^verbatim>\<open>zlib.compress\<close> is a library function too; the model takes it as the parameter \<open>zlib_compress\<close>
  (bytes and level to bytes) of the encoder and of everything that calls it.
\<close>

type_synonym compressor = "byte list \<Rightarrow> int \<Rightarrow> byte list"

definition convert_file ::
  "compressor \<Rightarrow> string \<Rightarrow> string \<Rightarrow> string \<Rightarrow> int \<Rightarrow> world \<Rightarrow> (error + string) \<times> world" where
  "convert_file zlib_compress file_name ftype format verbosity w =
     (case open_read file_name w of
        Inl e \<Rightarrow> (Inl e, w)
      | Inr data \<Rightarrow>
         (case decode_ascii (urlsafe_b64encode (zlib_compress (encode_utf8 data) 9)) of
            Inl e \<Rightarrow> (Inl e, w)
          | Inr encoded \<Rightarrow>
              let w1 = (if verbosity \<ge> 2
                        then print (colored ([tab] @ ''Processed file: '' @ file_name) Green) w
                        else w)
              in (Inr (korki_url_format ftype format encoded), w1)))"

text \<open>
  The loop of \<^verbatim>\<open>convert\<close> over \<^verbatim>\<open>file_names\<close>, on the locals \<^verbatim>\<open>replacements\<close> and
  \<^verbatim>\<open>warnings\<close>. \<^verbatim>\<open>split\<close> never returns an empty list, so the index \<^verbatim>\<open>[-1]\<close> is its
  last element.
\<close>

definition base_name :: "string \<Rightarrow> string" where
  "base_name file_name = last (split file_name CHR ''/'')"

definition extension :: "string \<Rightarrow> string" where
  "extension fname = ''.'' @ last (split fname CHR ''.'')"

fun convert_loop ::
  "compressor \<Rightarrow> string list \<Rightarrow> string \<Rightarrow> int \<Rightarrow> dict \<Rightarrow> nat \<Rightarrow> world
     \<Rightarrow> (error + dict \<times> nat) \<times> world" where
  "convert_loop zlib_compress [] format verbosity replacements warnings w =
     (Inr (replacements, warnings), w)"
| "convert_loop zlib_compress (file_name # rest) format verbosity replacements warnings w =
     (let fname = base_name file_name;
          ftype = extension fname
      in case map_of diagram_types ftype of
           Some language \<Rightarrow>
             (case convert_file zlib_compress file_name language format verbosity w of
                (Inl e, w1) \<Rightarrow> (Inl e, w1)
              | (Inr url, w1) \<Rightarrow>
                  convert_loop zlib_compress rest format verbosity
                    (setitem replacements fname url) warnings w1)
         | None \<Rightarrow>
             let msg = (if verbosity \<ge> 1
                        then [tab] @ ''Skipping '' @ file_name
                             @ '' as it is not a supported diagram file''
                        else ''Skipping '' @ file_name
                             @ '' as it is not a supported diagram file'')
             in convert_loop zlib_compress rest format verbosity replacements (warnings + 1)
                  (print (colored msg Yellow) w))"

definition convert ::
  "compressor \<Rightarrow> string list \<Rightarrow> string \<Rightarrow> int \<Rightarrow> world \<Rightarrow> (error + dict) \<times> world" where
  "convert zlib_compress file_names format verbosity w =
     (let w1 = (if verbosity \<ge> 1 then print (colored ''Calculating conversions'' Blue) w else w)
      in case convert_loop zlib_compress file_names format verbosity [] 0 w1 of
           (Inl e, w2) \<Rightarrow> (Inl e, w2)
         | (Inr (replacements, warnings), w2) \<Rightarrow>
             let w3 = (if verbosity \<ge> 1 \<and> warnings = 0
                       then print (plain []) (print (colored ''Conversion completed'' Green) w2)
                       else if verbosity \<ge> 1 \<and> warnings > 0
                       then print (plain [])
                              (print (colored ''Conversion completed with warnings'' Yellow) w2)
                       else if warnings > 0 then print (plain []) w2
                       else w2)
             in (Inr replacements, w3))"

subsection \<open>Notions of the specification\<close>

text \<open>
  The placeholder of a name, and the line the substitutor's contract asks for: the formatted
  line of the first entry, in the mapping's order, whose placeholder occurs in the line, and
  the line itself when there is none.
\<close>

definition placeholder :: "string \<Rightarrow> string" where
  "placeholder name = ''!['' @ name @ '']''"

definition rewrite :: "dict \<Rightarrow> string \<Rightarrow> string" where
  "rewrite replacements line =
     (case find (\<lambda>(key, val). sublist (placeholder key) line) replacements of
        None \<Rightarrow> line
      | Some (key, val) \<Rightarrow> markdown_format key val)"

text \<open>The language \<^verbatim>\<open>convert\<close> looks up for an input path, if any.\<close>

definition language_of :: "string \<Rightarrow> string option" where
  "language_of file_name = map_of diagram_types (extension (base_name file_name))"

text \<open>
  The URL-safe alphabet of the spec, and the value of \<^verbatim>\<open>zlib.compress\<close> at level 9 on the
  text of the spec's end-to-end scenario (a compressor for examples: elsewhere it stores the
  bytes behind a zero byte).
\<close>

definition urlsafe_alphabet :: string where
  "urlsafe_alphabet = ''ABCDEFGHIJKLMNOPQRSTUVWXYZabcdefghijklmnopqrstuvwxyz0123456789-_''"

definition example_compress :: compressor where
  "example_compress bs level =
     (if bs = encode_utf8 ''graph TD; A-->B;'' \<and> level = 9
      then [120, 218, 75, 47, 74, 44, 200, 80, 8, 113, 177, 86, 112, 212, 213, 181, 115, 178,
            6, 0, 43, 100, 4, 124]
      else 0 # bs)"

text \<open>
  The inputs \<^verbatim>\<open>convert\<close> encodes, and the elements of a list in the order of their first
  occurrence.
\<close>

definition supported :: "string \<Rightarrow> bool" where
  "supported file_name = (language_of file_name \<noteq> None)"


primrec first_occurrences :: "'a list \<Rightarrow> 'a list" where
  "first_occurrences [] = []"
| "first_occurrences (x # xs) = x # filter (\<lambda>y. y \<noteq> x) (first_occurrences xs)"

text \<open>
  Modelled from the spec: the decoding side of the round trip, \<^verbatim>\<open>base64.urlsafe_b64decode\<close>
  of the Python library, which the program itself never calls. It is the strict decoder of
  RFC 4648 for the URL-safe alphabet: four symbols to three bytes, padding only in the last
  group, \<open>None\<close> on anything else. \<open>payload\<close> is the last path segment of a link, and
  \<open>example_decompress\<close> inverts \<open>example_compress\<close>.
\<close>

fun index_of :: "'a \<Rightarrow> 'a list \<Rightarrow> nat option" where
  "index_of x [] = None"
| "index_of x (y # ys) = (if x = y then Some 0 else map_option Suc (index_of x ys))"

definition b64_val :: "byte \<Rightarrow> nat option" where
  "b64_val s = index_of s b64_table"

definition b64_quad :: "byte \<Rightarrow> byte \<Rightarrow> byte \<Rightarrow> byte \<Rightarrow> byte list option" where
  "b64_quad s0 s1 s2 s3 =
     (case (b64_val s0, b64_val s1) of
        (Some v0, Some v1) \<Rightarrow>
          if s2 = b64_pad \<and> s3 = b64_pad then Some [of_nat ((v0 * 64 + v1) div 16)]
          else (case b64_val s2 of
                  None \<Rightarrow> None
                | Some v2 \<Rightarrow>
                    if s3 = b64_pad then
                      (let n = (v0 * 4096 + v1 * 64 + v2) div 4
                       in Some [of_nat (n div 256), of_nat n])
                    else (case b64_val s3 of
                            None \<Rightarrow> None
                          | Some v3 \<Rightarrow>
                              (let n = v0 * 262144 + v1 * 4096 + v2 * 64 + v3
                               in Some [of_nat (n div 65536), of_nat (n div 256), of_nat n])))
      | _ \<Rightarrow> None)"

fun b64decode :: "byte list \<Rightarrow> byte list option" where
  "b64decode [] = Some []"
| "b64decode (s0 # s1 # s2 # s3 # rest) =
     (case b64_quad s0 s1 s2 s3 of
        None \<Rightarrow> None
      | Some bs \<Rightarrow>
          if rest = [] then Some bs
          else if length bs = 3 then map_option (\<lambda>tail. bs @ tail) (b64decode rest)
          else None)"
| "b64decode _ = None"

definition urlsafe_untranslate :: "byte \<Rightarrow> byte" where
  "urlsafe_untranslate b = (if b = 45 then 43 else if b = 95 then 47 else b)"

definition urlsafe_b64decode :: "string \<Rightarrow> byte list option" where
  "urlsafe_b64decode s = b64decode (map urlsafe_untranslate (encode_utf8 s))"

definition payload :: "string \<Rightarrow> string" where
  "payload link = last (split link CHR ''/'')"

definition example_decompress :: "byte list \<Rightarrow> byte list option" where
  "example_decompress zs =
     (if zs = [120, 218, 75, 47, 74, 44, 200, 80, 8, 113, 177, 86, 112, 212, 213, 181, 115, 178,
               6, 0, 43, 100, 4, 124]
      then Some (encode_utf8 ''graph TD; A-->B;'')
      else (case zs of [] \<Rightarrow> None | z # bs \<Rightarrow> if z = 0 then Some bs else None))"

section \<open>Properties\<close>

subsection \<open>Lines and their rewriting\<close>

lemma split_acc_nonempty: "split_acc sep cur s \<noteq> []"
  by (induction s arbitrary: cur) auto

lemma files_print: "files (print x w) = files w"
  by (simp add: print_def)

lemma check_line_loop_result:
  "fst (check_line_loop line index replacements verbosity req w) =
     (case find (\<lambda>(key, val). sublist (placeholder key) line) replacements of
        None \<Rightarrow> (if replacements = [] then req else Some line)
      | Some (key, val) \<Rightarrow> Some (markdown_format key val))"
  by (induction replacements arbitrary: req) (auto simp: placeholder_def Let_def)

lemma check_line_loop_files:
  "files (snd (check_line_loop line index replacements verbosity req w)) = files w"
  by (induction replacements arbitrary: req) (auto simp: Let_def files_print)

lemma check_line_empty:
  "check_line line index [] verbosity w = (Inl (UnboundLocalError ''req''), w)"
  by (simp add: check_line_def)

lemma check_line_result:
  "replacements \<noteq> [] \<Longrightarrow>
     fst (check_line line index replacements verbosity w) = Inr (rewrite replacements line)"
  using check_line_loop_result [of line index replacements verbosity None w]
  by (auto simp: check_line_def rewrite_def split: prod.splits option.splits)

lemma check_line_files:
  "files (snd (check_line line index replacements verbosity w)) = files w"
  using check_line_loop_files [of line index replacements verbosity None w]
  by (auto simp: check_line_def split: prod.splits option.splits)

lemma substitute_result:
  "replacements \<noteq> [] \<Longrightarrow>
     fst (substitute data index replacements verbosity final w) =
       Inr (final @ map (rewrite replacements) data)"
proof (induction data arbitrary: index final w)
  case Nil
  then show ?case by simp
next
  case (Cons line rest)
  obtain r w1 where c: "check_line line index replacements verbosity w = (r, w1)"
    by (cases "check_line line index replacements verbosity w")
  with check_line_result [OF Cons.prems, of line index verbosity w]
  have r: "r = Inr (rewrite replacements line)" by simp
  show ?case using Cons.IH [OF Cons.prems] c r by simp
qed

lemma substitute_files:
  "files (snd (substitute data index replacements verbosity final w)) = files w"
proof (induction data arbitrary: index final w)
  case Nil
  then show ?case by simp
next
  case (Cons line rest)
  show ?case
    using Cons.IH check_line_files [of line index replacements verbosity w]
    by (auto simp: files_print split: prod.splits sum.splits)
qed

lemma substitute_fst:
  "fst (substitute data index replacements verbosity final w) =
     (if replacements = [] \<and> data \<noteq> [] then Inl (UnboundLocalError ''req'')
      else Inr (final @ map (rewrite replacements) data))"
proof (cases "replacements = []")
  case True
  then show ?thesis by (cases data) (simp_all add: check_line_empty)
next
  case False
  then show ?thesis by (simp add: substitute_result)
qed

lemma rewrite_changes:
  "rewrite replacements line \<noteq> line \<Longrightarrow>
     \<exists>key \<in> set (map fst replacements). sublist (placeholder key) line"
proof -
  assume h: "rewrite replacements line \<noteq> line"
  then obtain key val where
    f: "find (\<lambda>(key, val). sublist (placeholder key) line) replacements = Some (key, val)"
    by (auto simp: rewrite_def split: option.splits)
  then have m: "(key, val) \<in> set replacements" and s: "sublist (placeholder key) line"
    by (auto simp: find_Some_iff nth_mem dest: sym)
  from m have "fst (key, val) \<in> fst ` set replacements" by (rule imageI)
  then have "key \<in> set (map fst replacements)" by simp
  with s show ?thesis by blast
qed

lemma rewrite_no_match:
  "list_all (\<lambda>key. \<not> sublist (placeholder key) line) (map fst replacements) \<Longrightarrow>
     rewrite replacements line = line"
  using rewrite_changes [of replacements line] by (auto simp: list_all_iff)

lemma rewrite_first_match:
  assumes "replacements = earlier @ (name, link) # later"
    and "list_all (\<lambda>key. \<not> sublist (placeholder key) line) (map fst earlier)"
    and "sublist (placeholder name) line"
  shows "rewrite replacements line = markdown_format name link"
proof -
  have "find (\<lambda>(key, val). sublist (placeholder key) line) replacements = Some (name, link)"
    unfolding assms(1) using assms(2,3)
    by (induction earlier) auto
  then show ?thesis by (simp add: rewrite_def)
qed

lemma substitute_no_match:
  assumes "replacements \<noteq> []"
    and "list_all (\<lambda>line. list_all (\<lambda>key. \<not> sublist (placeholder key) line)
           (map fst replacements)) data"
  shows "fst (substitute data 0 replacements verbosity [] w) = Inr data"
proof -
  have "map (rewrite replacements) data = data"
    using assms(2) by (induction data) (auto simp: rewrite_no_match)
  then show ?thesis using assms(1) by (simp add: substitute_fst)
qed

subsection \<open>The substitution pass\<close>

text \<open>
  Claim C1. A document none of whose lines holds a placeholder of the mapping should come
  back unchanged, the empty mapping included. With a non-empty mapping it does
  (\<open>substitute_no_match\<close>). With the empty mapping the loop of \<^verbatim>\<open>check_line\<close> never runs,
  \<^verbatim>\<open>req\<close> is never assigned, and the pass raises on the first line of every non-empty
  document.
\<close>

theorem substitute_empty_mapping_raises:
  "substitute (line # rest) index [] verbosity final w = (Inl (UnboundLocalError ''req''), w)"
  by (simp add: check_line_empty)


text \<open>
  Claim C4. For a non-empty mapping, the first entry in the mapping's order whose placeholder
  occurs in the line decides: the result is exactly \<^verbatim>\<open>![name](link)\<close> and a line break,
  whatever else the line holds, other placeholders included.
\<close>

theorem check_line_first_match_wins:
  assumes "replacements = earlier @ (name, link) # later"
    and "list_all (\<lambda>key. \<not> sublist (placeholder key) line) (map fst earlier)"
    and "sublist (placeholder name) line"
  shows "fst (check_line line index replacements verbosity w) =
           Inr (''!['' @ name @ '']('' @ link @ '')'' @ [newline])"
proof -
  have "replacements \<noteq> []" using assms(1) by simp
  then show ?thesis
    using rewrite_first_match [OF assms]
    by (simp add: check_line_result markdown_format_def)
qed

theorem check_line_first_match_wins_witness:
  "[(''x.mmd'', ''LX''), (''a.mmd'', ''LA''), (''b.mmd'', ''LB'')]
      = [(''x.mmd'', ''LX'')] @ (''a.mmd'', ''LA'') # [(''b.mmd'', ''LB'')]
   \<and> list_all (\<lambda>key. \<not> sublist (placeholder key) ''see ![b.mmd] and ![a.mmd] here'')
        (map fst [(''x.mmd'', ''LX'')])
   \<and> sublist (placeholder ''a.mmd'') ''see ![b.mmd] and ![a.mmd] here''
   \<and> sublist (placeholder ''b.mmd'') ''see ![b.mmd] and ![a.mmd] here''
   \<and> fst (check_line ''see ![b.mmd] and ![a.mmd] here'' 0
        [(''x.mmd'', ''LX''), (''a.mmd'', ''LA''), (''b.mmd'', ''LB'')] 3
        \<lparr>files = Map.empty, console = []\<rparr>)
       = Inr (''![a.mmd](LA)'' @ [newline])"
proof -
  have a: "[(''x.mmd'', ''LX''), (''a.mmd'', ''LA''), (''b.mmd'', ''LB'')]
      = [(''x.mmd'', ''LX'')] @ (''a.mmd'', ''LA'') # [(''b.mmd'', ''LB'')]" by simp
  have b: "list_all (\<lambda>key. \<not> sublist (placeholder key) ''see ![b.mmd] and ![a.mmd] here'')
        (map fst [(''x.mmd'', ''LX'')])"
    by (simp add: placeholder_def sublist_code)
  have c: "sublist (placeholder ''a.mmd'') ''see ![b.mmd] and ![a.mmd] here''"
    by (simp add: placeholder_def sublist_code)
  have d: "sublist (placeholder ''b.mmd'') ''see ![b.mmd] and ![a.mmd] here''"
    by (simp add: placeholder_def sublist_code)
  show ?thesis
    using a b c d check_line_first_match_wins [OF a b c, of 0 3 "\<lparr>files = Map.empty, console = []\<rparr>"]
    by simp
qed


text \<open>
  Claim C5. The pass appends one line to \<^verbatim>\<open>final\<close> for each line of the document: the
  rewritten sequence has as many lines as the input, and a line differs from the input line
  only where a placeholder of the mapping occurs in it. The pass yields no sequence in one
  case only, the empty mapping on a non-empty document (see C1).
\<close>

theorem substitute_same_length:
  "case fst (substitute data 0 replacements verbosity [] w) of
     Inr final \<Rightarrow>
       length final = length data
       \<and> (\<forall>i < length data. final ! i \<noteq> data ! i
             \<longrightarrow> (\<exists>key \<in> set (map fst replacements). sublist (placeholder key) (data ! i)))
   | Inl e \<Rightarrow> replacements = [] \<and> data \<noteq> []"
proof (cases "replacements = [] \<and> data \<noteq> []")
  case True
  then show ?thesis by (simp add: substitute_fst)
next
  case False
  then have "fst (substitute data 0 replacements verbosity [] w)
               = Inr (map (rewrite replacements) data)"
    by (simp add: substitute_fst)
  then show ?thesis using rewrite_changes [of replacements] by simp
qed

theorem substitute_same_length_witness:
  "fst (substitute [''# Title'' @ [newline], ''x ![a.mmd] y'' @ [newline], ''end''] 0
          [(''a.mmd'', ''L'')] 1 [] \<lparr>files = Map.empty, console = []\<rparr>)
     = Inr [''# Title'' @ [newline], ''![a.mmd](L)'' @ [newline], ''end'']
   \<and> length [''# Title'' @ [newline], ''![a.mmd](L)'' @ [newline], ''end'']
     = length [''# Title'' @ [newline], ''x ![a.mmd] y'' @ [newline], ''end'']
   \<and> sublist (placeholder ''a.mmd'') (''x ![a.mmd] y'' @ [newline])"
proof -
  have r: "fst (substitute [''# Title'' @ [newline], ''x ![a.mmd] y'' @ [newline], ''end''] 0
          [(''a.mmd'', ''L'')] 1 [] \<lparr>files = Map.empty, console = []\<rparr>)
     = Inr [''# Title'' @ [newline], ''![a.mmd](L)'' @ [newline], ''end'']"
    by (subst substitute_fst)
      (simp add: rewrite_def placeholder_def sublist_code markdown_format_def newline_def)
  show ?thesis
    using r substitute_same_length
        [where data = "[''# Title'' @ [newline], ''x ![a.mmd] y'' @ [newline], ''end'']"
           and replacements = "[(''a.mmd'', ''L'')]" and verbosity = 1
           and w = "\<lparr>files = Map.empty, console = []\<rparr>"]
    by (simp add: placeholder_def sublist_code newline_def)
qed

lemma update_markdown_file_dry_run:
  "files (snd (update_markdown_file file_name replacements True verbosity w)) = files w"
  using substitute_files
  by (auto simp: update_markdown_file_def Let_def files_print open_read_def
      split: option.splits prod.splits sum.splits dest!: arg_cong [where f = "\<lambda>p. files (snd p)"])


text \<open>
  Claim C6. A dry run leaves every file as it was, whether or not lines matched and also when
  the run raises. Otherwise, when the document is readable and the pass yields the sequence
  \<^verbatim>\<open>final\<close>, the run returns and the file system differs from the old one in the target
  file only, whose content is now the concatenation of \<^verbatim>\<open>final\<close>.
\<close>

theorem update_markdown_file_persistence:
  "(dry_run \<longrightarrow>
      files (snd (update_markdown_file file_name replacements dry_run verbosity w)) = files w)
   \<and> (\<not> dry_run \<longrightarrow> files w file_name = Some content \<longrightarrow>
        fst (substitute (readlines content) 0 replacements verbosity [] w) = Inr final \<longrightarrow>
        fst (update_markdown_file file_name replacements dry_run verbosity w) = Inr ()
        \<and> files (snd (update_markdown_file file_name replacements dry_run verbosity w))
            = (files w)(file_name \<mapsto> concat final))"
proof (intro conjI impI)
  assume "dry_run"
  then show "files (snd (update_markdown_file file_name replacements dry_run verbosity w)) = files w"
    by (simp add: update_markdown_file_dry_run)
next
  assume nd: "\<not> dry_run" and f: "files w file_name = Some content"
    and s: "fst (substitute (readlines content) 0 replacements verbosity [] w) = Inr final"
  define w1 where "w1 = (if verbosity \<ge> 1
                then print (colored (''Finding Update Points in '' @ file_name @ '':'') Blue) w
                else w)"
  have fw1: "files w1 = files w" by (simp add: w1_def files_print)
  obtain r w2 where sub: "substitute (readlines content) 0 replacements verbosity [] w1 = (r, w2)"
    by (cases "substitute (readlines content) 0 replacements verbosity [] w1")
  have "fst (substitute (readlines content) 0 replacements verbosity [] w1)
          = fst (substitute (readlines content) 0 replacements verbosity [] w)"
    by (simp only: substitute_fst)
  with sub s have r: "r = Inr final" by simp
  have fw2: "files w2 = files w"
    using substitute_files [of "readlines content" 0 replacements verbosity "[]" w1] sub fw1 by simp
  have u: "update_markdown_file file_name replacements dry_run verbosity w =
        (let w3 = (if verbosity \<ge> 1
                           then print (plain [])
                                  (print (colored (''Found '' @ str (length replacements)
                                                   @ '' Update Points'') Blue) w2)
                           else w2);
             w4 = (if verbosity \<ge> 1
                                then print (colored (''Updating '' @ file_name) Blue) w3 else w3);
             w5 = writelines file_name final w4;
             w6 = (if verbosity \<ge> 1
                                then print (plain [])
                                       (print (colored (''Updated '' @ file_name) Green) w5)
                                else w5)
         in (Inr (), w6))"
    using nd f sub r fw1
    by (simp add: update_markdown_file_def w1_def [symmetric] open_read_def Let_def)
  show "fst (update_markdown_file file_name replacements dry_run verbosity w) = Inr ()"
    by (simp add: u Let_def)
  show "files (snd (update_markdown_file file_name replacements dry_run verbosity w))
            = (files w)(file_name \<mapsto> concat final)"
    by (simp add: u Let_def files_print writelines_def fw2)
qed

theorem update_markdown_file_persistence_witness:
  "files (snd (update_markdown_file ''doc.md'' [(''a.mmd'', ''L'')] True 1
      \<lparr>files = [''doc.md'' \<mapsto> ''see ![a.mmd]'' @ [newline]], console = []\<rparr>))
     = [''doc.md'' \<mapsto> ''see ![a.mmd]'' @ [newline]]
   \<and> fst (substitute (readlines (''see ![a.mmd]'' @ [newline])) 0 [(''a.mmd'', ''L'')] 1 []
        \<lparr>files = [''doc.md'' \<mapsto> ''see ![a.mmd]'' @ [newline]], console = []\<rparr>)
     = Inr [''![a.mmd](L)'' @ [newline]]
   \<and> fst (update_markdown_file ''doc.md'' [(''a.mmd'', ''L'')] False 1
      \<lparr>files = [''doc.md'' \<mapsto> ''see ![a.mmd]'' @ [newline]], console = []\<rparr>) = Inr ()
   \<and> files (snd (update_markdown_file ''doc.md'' [(''a.mmd'', ''L'')] False 1
      \<lparr>files = [''doc.md'' \<mapsto> ''see ![a.mmd]'' @ [newline]], console = []\<rparr>))
     = [''doc.md'' \<mapsto> ''![a.mmd](L)'' @ [newline]]"
proof -
  let ?w = "\<lparr>files = [''doc.md'' \<mapsto> ''see ![a.mmd]'' @ [newline]], console = []\<rparr>"
  have l: "readlines (''see ![a.mmd]'' @ [newline]) = [''see ![a.mmd]'' @ [newline]]"
    by (simp add: readlines_def newline_def)
  have r: "fst (substitute (readlines (''see ![a.mmd]'' @ [newline])) 0 [(''a.mmd'', ''L'')] 1 [] ?w)
     = Inr [''![a.mmd](L)'' @ [newline]]"
    unfolding l
    by (subst substitute_fst)
      (simp add: rewrite_def placeholder_def sublist_code markdown_format_def newline_def)
  have f: "files ?w ''doc.md'' = Some (''see ![a.mmd]'' @ [newline])" by simp
  show ?thesis
    using r f
      update_markdown_file_persistence [where dry_run = True and file_name = "''doc.md''"
        and replacements = "[(''a.mmd'', ''L'')]" and verbosity = 1 and w = ?w]
      update_markdown_file_persistence [where dry_run = False and file_name = "''doc.md''"
        and replacements = "[(''a.mmd'', ''L'')]" and verbosity = 1 and w = ?w
        and content = "''see ![a.mmd]'' @ [newline]" and final = "[''![a.mmd](L)'' @ [newline]]"]
    by simp
qed

subsection \<open>Base names and extensions\<close>

lemma split_acc_no_sep: "sep \<notin> set s \<Longrightarrow> split_acc sep cur s = [cur @ s]"
  by (induction s arbitrary: cur) auto

lemma last_split_acc:
  "sep \<notin> set ext \<Longrightarrow> last (split_acc sep cur (stem @ sep # ext)) = ext"
proof (induction stem arbitrary: cur)
  case Nil
  then show ?case by (simp add: split_acc_no_sep)
next
  case (Cons c stem)
  then show ?case by (simp add: split_acc_nonempty)
qed

lemma last_split: "sep \<notin> set ext \<Longrightarrow> last (split (stem @ sep # ext) sep) = ext"
  by (simp add: split_def last_split_acc)

lemma last_split_no_sep: "sep \<notin> set s \<Longrightarrow> last (split s sep) = s"
  by (simp add: split_def split_acc_no_sep)

subsection \<open>The encoder\<close>

lemma unat_byte: "unat (b :: byte) < 256"
proof -
  have "unat b < 2 ^ LENGTH(8)" by (rule unsigned_less)
  then show ?thesis by simp
qed

lemma b64_table_length: "length b64_table = 64"
  by (simp add: b64_table_def encode_utf8_def)

lemma b64_sym_in_table: "b64_sym i \<in> set b64_table"
  by (simp add: b64_sym_def b64_table_length)

lemma b64_table_ascii:
  "b \<in> set b64_table \<Longrightarrow> unat b < 128 \<and> b \<noteq> 61 \<and> b \<noteq> 45 \<and> b \<noteq> 95"
  by (auto simp: b64_table_def encode_utf8_def)

lemma urlsafe_translate_ascii: "unat b < 128 \<Longrightarrow> unat (urlsafe_translate b) < 128"
  by (simp add: urlsafe_translate_def)

lemma b64encode_symbols: "set (b64encode bs) \<subseteq> insert b64_pad (set b64_table)"
  by (induction bs rule: b64encode.induct) (auto simp: Let_def b64_sym_in_table)

lemma urlsafe_b64encode_ascii: "list_all (\<lambda>b. unat b < 128) (urlsafe_b64encode bs)"
proof -
  have "unat b < 128" if "b \<in> set (b64encode bs)" for b
    using that b64encode_symbols [of bs] b64_table_ascii [of b] by (auto simp: b64_pad_def)
  then show ?thesis
    by (auto simp: urlsafe_b64encode_def list_all_iff urlsafe_translate_ascii)
qed

lemma encode_utf8_ascii: "encode_utf8 (map (\<lambda>b. char_of (unat b)) bs) = bs"
proof -
  have "(of_nat (of_char (char_of (unat b))) :: byte) = b" for b :: byte
    using unat_byte [of b] by simp
  then show ?thesis by (simp add: encode_utf8_def map_idI)
qed

lemma convert_file_fst:
  "fst (convert_file zlib_compress file_name ftype format verbosity w) =
     (case files w file_name of
        None \<Rightarrow> Inl (FileNotFoundError file_name)
      | Some data \<Rightarrow>
          Inr (korki_url_format ftype format
                 (map (\<lambda>b. char_of (unat b))
                    (urlsafe_b64encode (zlib_compress (encode_utf8 data) 9)))))"
  by (simp add: convert_file_def open_read_def decode_ascii_def urlsafe_b64encode_ascii Let_def
      split: option.splits)

lemma convert_file_files:
  "files (snd (convert_file zlib_compress file_name ftype format verbosity w)) = files w"
  by (simp add: convert_file_def open_read_def decode_ascii_def urlsafe_b64encode_ascii Let_def
      files_print split: option.splits)


lemma unat_byte_of_char: "unat (of_nat (of_char c) :: byte) = of_char c"
proof -
  have "(of_char c :: nat) < 256" by simp
  then show ?thesis by (simp add: unat_of_nat)
qed

lemma ascii_encode_utf8: "map (\<lambda>b. char_of (unat b)) (encode_utf8 s) = s"
  by (simp add: encode_utf8_def unat_byte_of_char map_idI)

lemma urlsafe_table_bytes: "map urlsafe_translate b64_table = encode_utf8 urlsafe_alphabet"
  by (simp add: b64_table_def encode_utf8_def urlsafe_translate_def urlsafe_alphabet_def)

lemma urlsafe_table:
  "map (\<lambda>b. char_of (unat (urlsafe_translate b))) b64_table = urlsafe_alphabet"
proof -
  have "map (\<lambda>b. char_of (unat (urlsafe_translate b))) b64_table
          = map (\<lambda>b. char_of (unat b)) (map urlsafe_translate b64_table)"
    by simp
  then show ?thesis by (simp only: urlsafe_table_bytes ascii_encode_utf8)
qed

lemma pad_char: "char_of (unat (urlsafe_translate b64_pad)) = CHR ''=''"
proof -
  have "urlsafe_translate b64_pad = of_nat (of_char CHR ''='')"
    by (simp add: urlsafe_translate_def b64_pad_def)
  then show ?thesis by (simp only: unat_byte_of_char char_of_char)
qed

lemma urlsafe_symbol:
  "b \<in> insert b64_pad (set b64_table) \<Longrightarrow>
     char_of (unat (urlsafe_translate b)) \<in> set urlsafe_alphabet \<union> {CHR ''=''}"
proof -
  assume "b \<in> insert b64_pad (set b64_table)"
  then consider "b = b64_pad" | "b \<in> set b64_table" by auto
  then show ?thesis
  proof cases
    case 1
    then show ?thesis by (simp add: pad_char)
  next
    case 2
    then have "char_of (unat (urlsafe_translate b))
                 \<in> set (map (\<lambda>b. char_of (unat (urlsafe_translate b))) b64_table)"
      by (simp only: set_map) (rule imageI)
    then show ?thesis by (simp only: urlsafe_table) simp
  qed
qed

lemma convert_single:
  assumes "language_of file_name = Some language"
    and "fst (convert_file zlib_compress file_name language format verbosity w1) = Inr link"
  shows "fst (convert_loop zlib_compress [file_name] format verbosity [] 0 w1)
           = Inr ([(base_name file_name, link)], 0)"
proof -
  obtain r w2 where c: "convert_file zlib_compress file_name language format verbosity w1 = (r, w2)"
    by (cases "convert_file zlib_compress file_name language format verbosity w1")
  with assms(2) have "r = Inr link" by simp
  with c assms(1) show ?thesis by (simp add: language_of_def Let_def)
qed

lemma example_payload:
  "urlsafe_b64encode (example_compress (encode_utf8 ''graph TD; A-->B;'') 9)
     = encode_utf8 ''eNpLL0osyFAIcbFWcNTVtXOyBgArZAR8''"
  by (simp add: example_compress_def urlsafe_b64encode_def Let_def b64_sym_def b64_table_def
      b64_pad_def urlsafe_translate_def encode_utf8_def)

text \<open>
  Claim C2. For a readable file whose extension maps to a language (\<^verbatim>\<open>.mmd\<close> to mermaid),
  the encoder returns exactly \<^verbatim>\<open>https://kroki.io/<language>/<format>/<payload>\<close>, and that
  link is what \<^verbatim>\<open>convert\<close> stores under the base name. The payload, read as bytes, is
  the URL-safe base64 encoding of the level-9 compression of the UTF-8 bytes of the whole
  content; its characters are those of the URL-safe alphabet and the padding \<^verbatim>\<open>=\<close>.
\<close>

theorem convert_file_link:
  assumes "files w file_name = Some data"
    and "language_of file_name = Some language"
  shows "\<exists>payload.
           fst (convert_file zlib_compress file_name language format verbosity w)
             = Inr (''https://kroki.io/'' @ language @ ''/'' @ format @ ''/'' @ payload)
           \<and> fst (convert zlib_compress [file_name] format verbosity w)
             = Inr [(base_name file_name,
                     ''https://kroki.io/'' @ language @ ''/'' @ format @ ''/'' @ payload)]
           \<and> encode_utf8 payload = urlsafe_b64encode (zlib_compress (encode_utf8 data) 9)
           \<and> set payload \<subseteq> set urlsafe_alphabet \<union> {CHR ''=''}"
proof -
  define payload where
    "payload = map (\<lambda>b. char_of (unat b)) (urlsafe_b64encode (zlib_compress (encode_utf8 data) 9))"
  let ?link = "''https://kroki.io/'' @ language @ ''/'' @ format @ ''/'' @ payload"
  have cf: "fst (convert_file zlib_compress file_name language format verbosity w') = Inr ?link"
    if "files w' = files w" for w'
    using that assms(1) by (simp add: convert_file_fst korki_url_format_def payload_def)
  define w1 where
    "w1 = (if verbosity \<ge> 1 then print (colored ''Calculating conversions'' Blue) w else w)"
  have "files w1 = files w" by (simp add: w1_def files_print)
  then have l: "fst (convert_loop zlib_compress [file_name] format verbosity [] 0 w1)
           = Inr ([(base_name file_name, ?link)], 0)"
    using convert_single [OF assms(2)] cf by simp
  obtain r w2 where cl: "convert_loop zlib_compress [file_name] format verbosity [] 0 w1 = (r, w2)"
    by (cases "convert_loop zlib_compress [file_name] format verbosity [] 0 w1")
  with l have r: "r = Inr ([(base_name file_name, ?link)], 0)" by simp
  have cv: "fst (convert zlib_compress [file_name] format verbosity w)
             = Inr [(base_name file_name, ?link)]"
    unfolding convert_def Let_def w1_def [symmetric] cl r by simp
  have enc: "encode_utf8 payload = urlsafe_b64encode (zlib_compress (encode_utf8 data) 9)"
    by (simp add: payload_def encode_utf8_ascii)
  have "set payload \<subseteq> set urlsafe_alphabet \<union> {CHR ''=''}"
    using b64encode_symbols [of "zlib_compress (encode_utf8 data) 9"] urlsafe_symbol
    unfolding payload_def urlsafe_b64encode_def by auto
  with cf [of w] cv enc show ?thesis by blast
qed

theorem convert_file_link_witness:
  "files \<lparr>files = [''diagrams/a.mmd'' \<mapsto> ''graph TD; A-->B;''], console = []\<rparr>
       ''diagrams/a.mmd'' = Some ''graph TD; A-->B;''
   \<and> language_of ''diagrams/a.mmd'' = Some ''mermaid''
   \<and> fst (convert example_compress [''diagrams/a.mmd''] ''svg'' 1
          \<lparr>files = [''diagrams/a.mmd'' \<mapsto> ''graph TD; A-->B;''], console = []\<rparr>)
       = Inr [(''a.mmd'',
               ''https://kroki.io/mermaid/svg/eNpLL0osyFAIcbFWcNTVtXOyBgArZAR8'')]"
proof -
  let ?w = "\<lparr>files = [''diagrams/a.mmd'' \<mapsto> ''graph TD; A-->B;''], console = []\<rparr>"
  have f: "files ?w ''diagrams/a.mmd'' = Some ''graph TD; A-->B;''" by simp
  have b: "base_name ''diagrams/a.mmd'' = ''a.mmd''" by (simp add: base_name_def split_def)
  have l: "language_of ''diagrams/a.mmd'' = Some ''mermaid''"
    by (simp add: language_of_def b extension_def split_def diagram_types_def)
  obtain payload where
    c: "fst (convert example_compress [''diagrams/a.mmd''] ''svg'' 1 ?w)
          = Inr [(base_name ''diagrams/a.mmd'',
                  ''https://kroki.io/'' @ ''mermaid'' @ ''/'' @ ''svg'' @ ''/'' @ payload)]"
    and e: "encode_utf8 payload
          = urlsafe_b64encode (example_compress (encode_utf8 ''graph TD; A-->B;'') 9)"
    using convert_file_link [OF f l, of example_compress "''svg''" 1] by blast
  from e have "map (\<lambda>b. char_of (unat b)) (encode_utf8 payload)
       = map (\<lambda>b. char_of (unat b)) (encode_utf8 ''eNpLL0osyFAIcbFWcNTVtXOyBgArZAR8'')"
    by (simp only: example_payload)
  then have "payload = ''eNpLL0osyFAIcbFWcNTVtXOyBgArZAR8''"
    by (simp only: ascii_encode_utf8)
  with c b f l show ?thesis by simp
qed

subsection \<open>Building the link mapping\<close>

lemma set_first_occurrences: "set (first_occurrences xs) = set xs"
  by (induction xs) auto

lemma distinct_first_occurrences: "distinct (first_occurrences xs)"
  by (induction xs) auto

lemma setitem_keys:
  "map fst (setitem d k v) = (if k \<in> set (map fst d) then map fst d else map fst d @ [k])"
  by (induction d) (fastforce simp: image_iff)+

lemma map_of_setitem: "map_of (setitem d k v) = (map_of d)(k \<mapsto> v)"
  by (induction d) auto

lemma convert_loop_step_skip:
  "language_of file_name = None \<Longrightarrow>
     convert_loop zlib_compress (file_name # rest) format verbosity replacements warnings w =
       convert_loop zlib_compress rest format verbosity replacements (warnings + 1)
         (print (colored ((if verbosity \<ge> 1 then [tab] else []) @ ''Skipping '' @ file_name
                          @ '' as it is not a supported diagram file'') Yellow) w)"
  by (simp add: language_of_def Let_def)

lemma convert_loop_step_file:
  "language_of file_name = Some language \<Longrightarrow>
     convert_loop zlib_compress (file_name # rest) format verbosity replacements warnings w =
       (case convert_file zlib_compress file_name language format verbosity w of
          (Inl e, w1) \<Rightarrow> (Inl e, w1)
        | (Inr url, w1) \<Rightarrow>
            convert_loop zlib_compress rest format verbosity
              (setitem replacements (base_name file_name) url) warnings w1)"
  by (simp add: language_of_def Let_def)

lemma filter_first_seen:
  "b \<in> set keys \<Longrightarrow>
     filter (\<lambda>k. k \<notin> set keys) (filter (\<lambda>y. y \<noteq> b) xs) = filter (\<lambda>k. k \<notin> set keys) xs"
  by (induction xs) auto

lemma convert_loop_keys:
  "convert_loop zlib_compress file_names format verbosity replacements warnings w
     = (Inr (m, n), w') \<Longrightarrow>
   map fst m = map fst replacements
       @ filter (\<lambda>k. k \<notin> set (map fst replacements))
           (first_occurrences (map base_name (filter supported file_names)))
   \<and> n = warnings + length (filter (\<lambda>f. \<not> supported f) file_names)
   \<and> files w' = files w"
proof (induction file_names arbitrary: replacements warnings w)
  case Nil
  then show ?case by simp
next
  case (Cons file_name rest)
  show ?case
  proof (cases "language_of file_name")
    case None
    then have ns: "\<not> supported file_name" by (simp add: supported_def)
    from Cons.prems have "convert_loop zlib_compress rest format verbosity replacements (warnings + 1)
         (print (colored ((if verbosity \<ge> 1 then [tab] else []) @ ''Skipping '' @ file_name
                          @ '' as it is not a supported diagram file'') Yellow) w) = (Inr (m, n), w')"
      by (simp only: convert_loop_step_skip [OF None])
    from Cons.IH [OF this] ns show ?thesis by (simp add: files_print)
  next
    case (Some language)
    then have s: "supported file_name" by (simp add: supported_def)
    obtain r w1 where c: "convert_file zlib_compress file_name language format verbosity w = (r, w1)"
      by (cases "convert_file zlib_compress file_name language format verbosity w")
    have fw1: "files w1 = files w"
      using convert_file_files [of zlib_compress file_name language format verbosity w] c by simp
    from Cons.prems have "(case convert_file zlib_compress file_name language format verbosity w of
          (Inl e, w1) \<Rightarrow> (Inl e, w1)
        | (Inr url, w1) \<Rightarrow>
            convert_loop zlib_compress rest format verbosity
              (setitem replacements (base_name file_name) url) warnings w1) = (Inr (m, n), w')"
      by (simp only: convert_loop_step_file [OF Some])
    with c obtain url where r: "r = Inr url"
      and l: "convert_loop zlib_compress rest format verbosity
              (setitem replacements (base_name file_name) url) warnings w1 = (Inr (m, n), w')"
      by (cases r) simp_all
    from Cons.IH [OF l] s fw1 show ?thesis
      by (auto simp: setitem_keys filter_first_seen intro: filter_cong)
  qed
qed


lemma convert_loop_fst_cong:
  "files w1 = files w2 \<Longrightarrow>
     fst (convert_loop zlib_compress file_names format verbosity replacements warnings w1)
       = fst (convert_loop zlib_compress file_names format verbosity replacements warnings w2)"
proof (induction file_names arbitrary: replacements warnings w1 w2)
  case Nil
  then show ?case by simp
next
  case (Cons file_name rest)
  show ?case
  proof (cases "language_of file_name")
    case None
    show ?thesis
      unfolding convert_loop_step_skip [OF None]
      by (rule Cons.IH) (simp add: files_print Cons.prems)
  next
    case (Some language)
    obtain r1 v1 where c1: "convert_file zlib_compress file_name language format verbosity w1 = (r1, v1)"
      by (cases "convert_file zlib_compress file_name language format verbosity w1")
    obtain r2 v2 where c2: "convert_file zlib_compress file_name language format verbosity w2 = (r2, v2)"
      by (cases "convert_file zlib_compress file_name language format verbosity w2")
    have "fst (convert_file zlib_compress file_name language format verbosity w1)
            = fst (convert_file zlib_compress file_name language format verbosity w2)"
      by (simp only: convert_file_fst Cons.prems)
    with c1 c2 have r: "r1 = r2" by simp
    have "files v1 = files v2"
      using convert_file_files [of zlib_compress file_name language format verbosity w1]
        convert_file_files [of zlib_compress file_name language format verbosity w2]
        c1 c2 Cons.prems by simp
    from Cons.IH [OF this] show ?thesis
      unfolding convert_loop_step_file [OF Some] c1 c2 r
      by (cases r2) simp_all
  qed
qed

lemma convert_loop_returns:
  "\<forall>f \<in> set file_names. supported f \<longrightarrow> files w f \<noteq> None \<Longrightarrow>
     \<exists>m n w'. convert_loop zlib_compress file_names format verbosity replacements warnings w
                 = (Inr (m, n), w')"
proof (induction file_names arbitrary: replacements warnings w)
  case Nil
  then show ?case by simp
next
  case (Cons file_name rest)
  show ?case
  proof (cases "language_of file_name")
    case None
    show ?thesis
      unfolding convert_loop_step_skip [OF None]
      by (rule Cons.IH) (use Cons.prems in \<open>simp add: files_print\<close>)
  next
    case (Some language)
    then have "supported file_name" by (simp add: supported_def)
    with Cons.prems obtain data where d: "files w file_name = Some data" by auto
    obtain r w1 where c: "convert_file zlib_compress file_name language format verbosity w = (r, w1)"
      by (cases "convert_file zlib_compress file_name language format verbosity w")
    have "fst (convert_file zlib_compress file_name language format verbosity w)
            = Inr (korki_url_format language format
                 (map (\<lambda>b. char_of (unat b))
                    (urlsafe_b64encode (zlib_compress (encode_utf8 data) 9))))"
      by (simp add: convert_file_fst d)
    with c obtain url where r: "r = Inr url" by simp
    have "files w1 = files w"
      using convert_file_files [of zlib_compress file_name language format verbosity w] c by simp
    with Cons.prems have "\<forall>f \<in> set rest. supported f \<longrightarrow> files w1 f \<noteq> None" by simp
    from Cons.IH [OF this] show ?thesis
      unfolding convert_loop_step_file [OF Some] c r by simp
  qed
qed

lemma convert_loop_of_convert:
  "convert zlib_compress file_names format verbosity w = (Inr m, w') \<Longrightarrow>
     \<exists>n w1 w2. files w1 = files w
        \<and> convert_loop zlib_compress file_names format verbosity [] 0 w1 = (Inr (m, n), w2)"
proof -
  assume a: "convert zlib_compress file_names format verbosity w = (Inr m, w')"
  define w1 where
    "w1 = (if verbosity \<ge> 1 then print (colored ''Calculating conversions'' Blue) w else w)"
  have f: "files w1 = files w" by (simp add: w1_def files_print)
  obtain r w2 where l: "convert_loop zlib_compress file_names format verbosity [] 0 w1 = (r, w2)"
    by (cases "convert_loop zlib_compress file_names format verbosity [] 0 w1")
  from a have "\<exists>n. r = Inr (m, n)"
    unfolding convert_def Let_def w1_def [symmetric] l
    by (cases r) (auto split: prod.splits)
  with f l show ?thesis by blast
qed

lemma convert_of_convert_loop:
  "fst (convert_loop zlib_compress file_names format verbosity [] 0 w) = Inr (m, n) \<Longrightarrow>
     fst (convert zlib_compress file_names format verbosity w) = Inr m"
proof -
  assume a: "fst (convert_loop zlib_compress file_names format verbosity [] 0 w) = Inr (m, n)"
  define w1 where
    "w1 = (if verbosity \<ge> 1 then print (colored ''Calculating conversions'' Blue) w else w)"
  have f: "files w1 = files w" by (simp add: w1_def files_print)
  obtain r w2 where l: "convert_loop zlib_compress file_names format verbosity [] 0 w1 = (r, w2)"
    by (cases "convert_loop zlib_compress file_names format verbosity [] 0 w1")
  have "r = Inr (m, n)"
    using convert_loop_fst_cong [OF f, of zlib_compress file_names format verbosity "[]" 0] a l
    by simp
  then show ?thesis
    unfolding convert_def Let_def w1_def [symmetric] l by simp
qed

lemma supported_iff: "supported file_name \<longleftrightarrow> extension (base_name file_name) = ''.mmd''"
  by (simp add: supported_def language_of_def diagram_types_def)

lemma convert_returns:
  "\<forall>f \<in> set file_names. supported f \<longrightarrow> files w f \<noteq> None \<Longrightarrow>
     \<exists>m w'. convert zlib_compress file_names format verbosity w = (Inr m, w')"
proof -
  assume r: "\<forall>f \<in> set file_names. supported f \<longrightarrow> files w f \<noteq> None"
  from convert_loop_returns [OF r] obtain m n w1 where
    "convert_loop zlib_compress file_names format verbosity [] 0 w = (Inr (m, n), w1)"
    by blast
  then have "fst (convert zlib_compress file_names format verbosity w) = Inr m"
    by (intro convert_of_convert_loop [where n = n]) simp
  then show ?thesis
    by (cases "convert zlib_compress file_names format verbosity w") auto
qed

lemma convert_loop_untouched:
  "convert_loop zlib_compress file_names format verbosity replacements warnings w
     = (Inr (m, n), w') \<Longrightarrow>
   \<forall>f \<in> set file_names. base_name f \<noteq> k \<Longrightarrow>
   map_of m k = map_of replacements k"
proof (induction file_names arbitrary: replacements warnings w)
  case Nil
  then show ?case by simp
next
  case (Cons file_name rest)
  show ?case
  proof (cases "language_of file_name")
    case None
    from Cons.prems(1) have "convert_loop zlib_compress rest format verbosity replacements (warnings + 1)
         (print (colored ((if verbosity \<ge> 1 then [tab] else []) @ ''Skipping '' @ file_name
                          @ '' as it is not a supported diagram file'') Yellow) w) = (Inr (m, n), w')"
      by (simp only: convert_loop_step_skip [OF None])
    from Cons.IH [OF this] Cons.prems(2) show ?thesis by simp
  next
    case (Some language)
    obtain r w1 where c: "convert_file zlib_compress file_name language format verbosity w = (r, w1)"
      by (cases "convert_file zlib_compress file_name language format verbosity w")
    from Cons.prems(1) have "(case convert_file zlib_compress file_name language format verbosity w of
          (Inl e, w1) \<Rightarrow> (Inl e, w1)
        | (Inr url, w1) \<Rightarrow>
            convert_loop zlib_compress rest format verbosity
              (setitem replacements (base_name file_name) url) warnings w1) = (Inr (m, n), w')"
      by (simp only: convert_loop_step_file [OF Some])
    with c obtain url where r: "r = Inr url"
      and l: "convert_loop zlib_compress rest format verbosity
              (setitem replacements (base_name file_name) url) warnings w1 = (Inr (m, n), w')"
      by (cases r) simp_all
    from Cons.IH [OF l] Cons.prems(2) show ?thesis by (auto simp: map_of_setitem)
  qed
qed

lemma convert_loop_suffix:
  "convert_loop zlib_compress (earlier @ rest) format verbosity replacements warnings w
     = (Inr (m, n), w') \<Longrightarrow>
   \<exists>replacements' warnings' w''. files w'' = files w
      \<and> convert_loop zlib_compress rest format verbosity replacements' warnings' w''
          = (Inr (m, n), w')"
proof (induction earlier arbitrary: replacements warnings w)
  case Nil
  then show ?case by auto
next
  case (Cons file_name earlier)
  show ?case
  proof (cases "language_of file_name")
    case None
    from Cons.prems have "convert_loop zlib_compress (earlier @ rest) format verbosity replacements
         (warnings + 1)
         (print (colored ((if verbosity \<ge> 1 then [tab] else []) @ ''Skipping '' @ file_name
                          @ '' as it is not a supported diagram file'') Yellow) w) = (Inr (m, n), w')"
      by (simp only: append_Cons convert_loop_step_skip [OF None])
    from Cons.IH [OF this] show ?thesis by (simp add: files_print)
  next
    case (Some language)
    obtain r w1 where c: "convert_file zlib_compress file_name language format verbosity w = (r, w1)"
      by (cases "convert_file zlib_compress file_name language format verbosity w")
    have fw1: "files w1 = files w"
      using convert_file_files [of zlib_compress file_name language format verbosity w] c by simp
    from Cons.prems have "(case convert_file zlib_compress file_name language format verbosity w of
          (Inl e, w1) \<Rightarrow> (Inl e, w1)
        | (Inr url, w1) \<Rightarrow>
            convert_loop zlib_compress (earlier @ rest) format verbosity
              (setitem replacements (base_name file_name) url) warnings w1) = (Inr (m, n), w')"
      by (simp only: append_Cons convert_loop_step_file [OF Some])
    with c obtain url where r: "r = Inr url"
      and l: "convert_loop zlib_compress (earlier @ rest) format verbosity
              (setitem replacements (base_name file_name) url) warnings w1 = (Inr (m, n), w')"
      by (cases r) simp_all
    from Cons.IH [OF l] fw1 show ?thesis by simp
  qed
qed

lemma single_entry:
  "distinct (map fst m) \<Longrightarrow> map_of m k = Some v \<Longrightarrow>
     filter (\<lambda>(key, val). key = k) m = [(k, v)]"
proof (induction m)
  case Nil
  then show ?case by simp
next
  case (Cons p m)
  obtain k' v' where p: "p = (k', v')" by (cases p)
  show ?case
  proof (cases "k' = k")
    case True
    with Cons.prems p have "v' = v" and "k \<notin> fst ` set m" by auto
    then have "filter (\<lambda>(key, val). key = k) m = []"
      by (auto simp: filter_empty_conv image_iff)
    with True p \<open>v' = v\<close> show ?thesis by simp
  next
    case False
    with Cons p show ?thesis by simp
  qed
qed

lemma rewrite_keys:
  "rewrite m line =
     (case find (\<lambda>key. sublist (placeholder key) line) (map fst m) of
        None \<Rightarrow> line
      | Some key \<Rightarrow> markdown_format key (the (map_of m key)))"
proof (induction m)
  case Nil
  then show ?case by (simp add: rewrite_def)
next
  case (Cons p m)
  obtain k v where p: "p = (k, v)" by (cases p)
  show ?case
  proof (cases "sublist (placeholder k) line")
    case True
    then show ?thesis by (simp add: rewrite_def p)
  next
    case False
    then have "rewrite (p # m) line = rewrite m line" by (simp add: rewrite_def p)
    moreover have "find (\<lambda>key. sublist (placeholder key) line) (map fst m) = Some key
         \<Longrightarrow> key \<noteq> k" for key
      using False by (auto simp: find_Some_iff)
    ultimately show ?thesis
      using Cons.IH False by (auto simp: p split: option.splits)
  qed
qed

text \<open>
  Claim C7. A file whose extension is not in \<^verbatim>\<open>diagram_types\<close> takes the skipping branch of
  the loop: the mapping is passed on as it is, \<^verbatim>\<open>warnings\<close> grows by one, a notice is
  printed, nothing is raised and the loop goes on with the remaining files; the file is not
  even opened. Hence, when the supported inputs are readable, \<^verbatim>\<open>convert\<close> returns a mapping
  whose keys are exactly the base names of the supported inputs, having counted one warning
  for each other input.
\<close>

theorem convert_skips_unsupported:
  "(\<not> supported file_name \<longrightarrow>
      convert_loop zlib_compress (file_name # rest) format verbosity replacements warnings w
        = convert_loop zlib_compress rest format verbosity replacements (warnings + 1)
            (print (colored ((if verbosity \<ge> 1 then [tab] else []) @ ''Skipping '' @ file_name
                             @ '' as it is not a supported diagram file'') Yellow) w))
   \<and> ((\<forall>f \<in> set file_names. supported f \<longrightarrow> files w f \<noteq> None) \<longrightarrow>
        (\<exists>m w'. fst (convert_loop zlib_compress file_names format verbosity [] 0 w)
                    = Inr (m, length (filter (\<lambda>f. \<not> supported f) file_names))
              \<and> convert zlib_compress file_names format verbosity w = (Inr m, w')
              \<and> set (map fst m) = base_name ` {f \<in> set file_names. supported f}))"
proof (intro conjI impI)
  assume "\<not> supported file_name"
  then have "language_of file_name = None" by (simp add: supported_def)
  then show "convert_loop zlib_compress (file_name # rest) format verbosity replacements warnings w
        = convert_loop zlib_compress rest format verbosity replacements (warnings + 1)
            (print (colored ((if verbosity \<ge> 1 then [tab] else []) @ ''Skipping '' @ file_name
                             @ '' as it is not a supported diagram file'') Yellow) w)"
    by (rule convert_loop_step_skip)
next
  assume r: "\<forall>f \<in> set file_names. supported f \<longrightarrow> files w f \<noteq> None"
  from convert_loop_returns [OF r] obtain m n w1 where
    l: "convert_loop zlib_compress file_names format verbosity [] 0 w = (Inr (m, n), w1)"
    by blast
  from convert_loop_keys [OF l]
  have k: "map fst m = first_occurrences (map base_name (filter supported file_names))"
    and n: "n = length (filter (\<lambda>f. \<not> supported f) file_names)"
    by simp_all
  have "fst (convert zlib_compress file_names format verbosity w) = Inr m"
    using l by (intro convert_of_convert_loop [where n = n]) simp
  then obtain w' where c: "convert zlib_compress file_names format verbosity w = (Inr m, w')"
    by (cases "convert zlib_compress file_names format verbosity w") simp
  have "set (map fst m) = base_name ` {f \<in> set file_names. supported f}"
    unfolding k by (auto simp: set_first_occurrences)
  with l n c
  show "\<exists>m w'. fst (convert_loop zlib_compress file_names format verbosity [] 0 w)
                    = Inr (m, length (filter (\<lambda>f. \<not> supported f) file_names))
              \<and> convert zlib_compress file_names format verbosity w = (Inr m, w')
              \<and> set (map fst m) = base_name ` {f \<in> set file_names. supported f}"
    by auto
qed


theorem convert_skips_unsupported_witness:
  "\<not> supported ''notes.txt''
   \<and> convert_loop example_compress (''notes.txt'' # [''d/a.mmd'']) ''svg'' 1 [] 0
        \<lparr>files = [''d/a.mmd'' \<mapsto> ''graph TD; A-->B;''], console = []\<rparr>
      = convert_loop example_compress [''d/a.mmd''] ''svg'' 1 [] (0 + 1)
          (print (colored ([tab] @ ''Skipping '' @ ''notes.txt''
                           @ '' as it is not a supported diagram file'') Yellow)
             \<lparr>files = [''d/a.mmd'' \<mapsto> ''graph TD; A-->B;''], console = []\<rparr>)
   \<and> supported ''d/a.mmd''
   \<and> files \<lparr>files = [''d/a.mmd'' \<mapsto> ''graph TD; A-->B;''], console = []\<rparr> ''d/a.mmd''
       \<noteq> None
   \<and> files \<lparr>files = [''d/a.mmd'' \<mapsto> ''graph TD; A-->B;''], console = []\<rparr> ''notes.txt''
       = None
   \<and> (\<exists>m w'. fst (convert_loop example_compress [''notes.txt'', ''d/a.mmd''] ''svg'' 1 [] 0
                    \<lparr>files = [''d/a.mmd'' \<mapsto> ''graph TD; A-->B;''], console = []\<rparr>)
                = Inr (m, 1)
           \<and> convert example_compress [''notes.txt'', ''d/a.mmd''] ''svg'' 1
                \<lparr>files = [''d/a.mmd'' \<mapsto> ''graph TD; A-->B;''], console = []\<rparr> = (Inr m, w')
           \<and> set (map fst m) = {''a.mmd''})"
proof -
  let ?w = "\<lparr>files = [''d/a.mmd'' \<mapsto> ''graph TD; A-->B;''], console = []\<rparr>"
  have ns: "\<not> supported ''notes.txt''"
    by (simp add: supported_iff base_name_def extension_def split_def)
  have sa: "supported ''d/a.mmd''"
    by (simp add: supported_iff base_name_def extension_def split_def)
  have b: "base_name ''d/a.mmd'' = ''a.mmd''" by (simp add: base_name_def split_def)
  have r: "\<forall>f \<in> set [''notes.txt'', ''d/a.mmd'']. supported f \<longrightarrow> files ?w f \<noteq> None"
    using ns by simp
  have "{f \<in> set [''notes.txt'', ''d/a.mmd'']. supported f} = {''d/a.mmd''}"
    using ns sa by auto
  then have s: "base_name ` {f \<in> set [''notes.txt'', ''d/a.mmd'']. supported f} = {''a.mmd''}"
    by (simp only: image_insert image_empty b)
  have c: "length (filter (\<lambda>f. \<not> supported f) [''notes.txt'', ''d/a.mmd'']) = 1"
    using ns sa by simp
  note t = convert_skips_unsupported [where file_name = "''notes.txt''" and rest = "[''d/a.mmd'']"
        and zlib_compress = example_compress and format = "''svg''" and verbosity = 1
        and replacements = "[]" and warnings = 0 and w = ?w
        and file_names = "[''notes.txt'', ''d/a.mmd'']"]
  have e: "convert_loop example_compress (''notes.txt'' # [''d/a.mmd'']) ''svg'' 1 [] 0 ?w
      = convert_loop example_compress [''d/a.mmd''] ''svg'' 1 [] (0 + 1)
          (print (colored ([tab] @ ''Skipping '' @ ''notes.txt''
                           @ '' as it is not a supported diagram file'') Yellow) ?w)"
    using t [THEN conjunct1] ns by (simp del: convert_loop.simps)
  have g: "\<exists>m w'. fst (convert_loop example_compress [''notes.txt'', ''d/a.mmd''] ''svg'' 1 [] 0 ?w)
                = Inr (m, 1)
           \<and> convert example_compress [''notes.txt'', ''d/a.mmd''] ''svg'' 1 ?w = (Inr m, w')
           \<and> set (map fst m) = {''a.mmd''}"
    using t [THEN conjunct2] r unfolding s c by (simp del: convert_loop.simps)
  have f: "files ?w ''d/a.mmd'' \<noteq> None" and a: "files ?w ''notes.txt'' = None" by simp_all
  show ?thesis
    using ns e sa f a g by (intro conjI)
qed

text \<open>
  Claim C8. When several supported inputs share a base name, the returned mapping holds one
  entry under that name, and its value is the link of the last of them in the input order.
\<close>

theorem convert_last_write_wins:
  assumes "convert zlib_compress file_names format verbosity w = (Inr m, w')"
    and "file_names = earlier @ file_name # later"
    and "language_of file_name = Some language"
    and "\<forall>f \<in> set later. base_name f \<noteq> base_name file_name"
  shows "\<exists>link. fst (convert_file zlib_compress file_name language format verbosity w) = Inr link
           \<and> map_of m (base_name file_name) = Some link
           \<and> filter (\<lambda>(key, val). key = base_name file_name) m = [(base_name file_name, link)]"
proof -
  from convert_loop_of_convert [OF assms(1)] obtain n w1 w2 where
    f1: "files w1 = files w"
    and l: "convert_loop zlib_compress file_names format verbosity [] 0 w1 = (Inr (m, n), w2)"
    by blast
  from convert_loop_keys [OF l]
  have "map fst m = first_occurrences (map base_name (filter supported file_names))" by simp
  then have d: "distinct (map fst m)" by (simp add: distinct_first_occurrences)
  from l convert_loop_suffix [of zlib_compress earlier "file_name # later" format verbosity "[]" 0 w1 m n w2]
  obtain replacements' warnings' w'' where
    f2: "files w'' = files w1"
    and s: "convert_loop zlib_compress (file_name # later) format verbosity replacements' warnings' w''
          = (Inr (m, n), w2)"
    unfolding assms(2) by blast
  obtain r w3 where c: "convert_file zlib_compress file_name language format verbosity w'' = (r, w3)"
    by (cases "convert_file zlib_compress file_name language format verbosity w''")
  from s have "(case convert_file zlib_compress file_name language format verbosity w'' of
          (Inl e, w1) \<Rightarrow> (Inl e, w1)
        | (Inr url, w1) \<Rightarrow>
            convert_loop zlib_compress later format verbosity
              (setitem replacements' (base_name file_name) url) warnings' w1) = (Inr (m, n), w2)"
    by (simp only: convert_loop_step_file [OF assms(3)])
  with c obtain link where r: "r = Inr link"
    and t: "convert_loop zlib_compress later format verbosity
              (setitem replacements' (base_name file_name) link) warnings' w3 = (Inr (m, n), w2)"
    by (cases r) simp_all
  have v: "map_of m (base_name file_name) = Some link"
    using convert_loop_untouched [OF t assms(4)] by (simp add: map_of_setitem)
  have "fst (convert_file zlib_compress file_name language format verbosity w)
          = fst (convert_file zlib_compress file_name language format verbosity w'')"
    by (simp only: convert_file_fst f1 f2)
  with c r have "fst (convert_file zlib_compress file_name language format verbosity w) = Inr link"
    by simp
  with v single_entry [OF d v] show ?thesis by blast
qed

theorem convert_last_write_wins_witness:
  "\<exists>m w' link.
     convert example_compress [''x/a.mmd'', ''y/a.mmd'', ''notes.txt''] ''svg'' 1
       \<lparr>files = [''x/a.mmd'' \<mapsto> ''graph TD; A-->B;'', ''y/a.mmd'' \<mapsto> ''graph LR; A-->B;''],
        console = []\<rparr> = (Inr m, w')
     \<and> [''x/a.mmd'', ''y/a.mmd'', ''notes.txt''] = [''x/a.mmd''] @ ''y/a.mmd'' # [''notes.txt'']
     \<and> language_of ''y/a.mmd'' = Some ''mermaid''
     \<and> base_name ''notes.txt'' \<noteq> base_name ''y/a.mmd''
     \<and> fst (convert_file example_compress ''y/a.mmd'' ''mermaid'' ''svg'' 1
          \<lparr>files = [''x/a.mmd'' \<mapsto> ''graph TD; A-->B;'', ''y/a.mmd'' \<mapsto> ''graph LR; A-->B;''],
           console = []\<rparr>) = Inr link
     \<and> map_of m ''a.mmd'' = Some link
     \<and> filter (\<lambda>(key, val). key = ''a.mmd'') m = [(''a.mmd'', link)]"
proof -
  let ?w = "\<lparr>files = [''x/a.mmd'' \<mapsto> ''graph TD; A-->B;'', ''y/a.mmd'' \<mapsto> ''graph LR; A-->B;''],
        console = []\<rparr>"
  have ns: "\<not> supported ''notes.txt''"
    by (simp add: supported_iff base_name_def extension_def split_def)
  have "\<forall>f \<in> set [''x/a.mmd'', ''y/a.mmd'', ''notes.txt'']. supported f \<longrightarrow> files ?w f \<noteq> None"
    using ns by simp
  from convert_returns [OF this] obtain m w' where
    c: "convert example_compress [''x/a.mmd'', ''y/a.mmd'', ''notes.txt''] ''svg'' 1 ?w = (Inr m, w')"
    by blast
  have a: "[''x/a.mmd'', ''y/a.mmd'', ''notes.txt''] = [''x/a.mmd''] @ ''y/a.mmd'' # [''notes.txt'']"
    by simp
  have b: "base_name ''y/a.mmd'' = ''a.mmd''" by (simp add: base_name_def split_def)
  have l: "language_of ''y/a.mmd'' = Some ''mermaid''"
    by (simp add: language_of_def b extension_def split_def diagram_types_def)
  have n: "\<forall>f \<in> set [''notes.txt'']. base_name f \<noteq> base_name ''y/a.mmd''"
    by (simp add: base_name_def split_def)
  have n': "base_name ''notes.txt'' \<noteq> base_name ''y/a.mmd''"
    by (simp add: base_name_def split_def)
  from convert_last_write_wins [OF c a l n] a l n' c show ?thesis
    unfolding b by blast
qed

text \<open>
  Claim C10. The keys of the returned mapping stand in the order in which the base names of
  the supported inputs first occur in the input list, so that \<^verbatim>\<open>check_line\<close>, which tries
  the entries in the mapping's order, rewrites a line for the first base name in that order
  whose placeholder the line holds.
\<close>

theorem convert_iteration_order:
  assumes "convert zlib_compress file_names format verbosity w = (Inr m, w')"
  shows "map fst m = first_occurrences (map base_name (filter supported file_names))
     \<and> (m \<noteq> [] \<longrightarrow>
          fst (check_line line index m verbosity' w'') =
            Inr (case find (\<lambda>key. sublist (placeholder key) line)
                        (first_occurrences (map base_name (filter supported file_names))) of
                   None \<Rightarrow> line
                 | Some key \<Rightarrow> markdown_format key (the (map_of m key))))"
proof -
  from convert_loop_of_convert [OF assms] obtain n w1 w2 where
    l: "convert_loop zlib_compress file_names format verbosity [] 0 w1 = (Inr (m, n), w2)"
    by blast
  from convert_loop_keys [OF l]
  have k: "map fst m = first_occurrences (map base_name (filter supported file_names))" by simp
  show ?thesis
    using k rewrite_keys [of m line] by (simp add: check_line_result)
qed


theorem convert_iteration_order_witness:
  "\<exists>m w'.
     convert example_compress [''x/b.mmd'', ''notes.txt'', ''y/a.mmd'', ''z/b.mmd''] ''svg'' 1
       \<lparr>files = [''x/b.mmd'' \<mapsto> ''graph TD; A-->B;'', ''y/a.mmd'' \<mapsto> ''graph LR; A-->B;'',
                 ''z/b.mmd'' \<mapsto> ''graph TD; B-->C;''], console = []\<rparr> = (Inr m, w')
     \<and> map fst m = [''b.mmd'', ''a.mmd'']
     \<and> m \<noteq> []
     \<and> fst (check_line ''![a.mmd] and ![b.mmd]'' 0 m 1 w')
         = Inr (markdown_format ''b.mmd'' (the (map_of m ''b.mmd'')))"
proof -
  let ?w = "\<lparr>files = [''x/b.mmd'' \<mapsto> ''graph TD; A-->B;'', ''y/a.mmd'' \<mapsto> ''graph LR; A-->B;'',
                 ''z/b.mmd'' \<mapsto> ''graph TD; B-->C;''], console = []\<rparr>"
  let ?fs = "[''x/b.mmd'', ''notes.txt'', ''y/a.mmd'', ''z/b.mmd'']"
  have ns: "\<not> supported ''notes.txt''"
    by (simp add: supported_iff base_name_def extension_def split_def)
  have s: "supported ''x/b.mmd''" "supported ''y/a.mmd''" "supported ''z/b.mmd''"
    by (simp_all add: supported_iff base_name_def extension_def split_def)
  have "\<forall>f \<in> set ?fs. supported f \<longrightarrow> files ?w f \<noteq> None"
    using ns by simp
  from convert_returns [OF this] obtain m w' where
    c: "convert example_compress ?fs ''svg'' 1 ?w = (Inr m, w')"
    by blast
  have k: "first_occurrences (map base_name (filter supported ?fs)) = [''b.mmd'', ''a.mmd'']"
    using ns s by (simp add: base_name_def split_def)
  from convert_iteration_order [OF c, of "''![a.mmd] and ![b.mmd]''" 0 1 w']
  have o: "map fst m = [''b.mmd'', ''a.mmd'']"
    and h: "m \<noteq> [] \<longrightarrow> fst (check_line ''![a.mmd] and ![b.mmd]'' 0 m 1 w')
         = Inr (markdown_format ''b.mmd'' (the (map_of m ''b.mmd'')))"
    unfolding k by (simp_all add: placeholder_def sublist_code)
  from o have ne: "m \<noteq> []" by auto
  show ?thesis
    by (rule exI [of _ m], rule exI [of _ w']) (use c o h ne in simp)
qed

text \<open>
  Claim C9. The extension is a dot followed by what comes after the last dot of the base
  name. A base name without a dot is its own extension body, and the loop of \<^verbatim>\<open>convert\<close>
  acts on it accordingly: for the base name \<^verbatim>\<open>mmd\<close> it looks up \<^verbatim>\<open>.mmd\<close>, calls
  \<^verbatim>\<open>convert_file\<close> with the language mermaid and stores the link under \<^verbatim>\<open>mmd\<close>; for
  every other dotless base name it takes the skipping branch, counting a warning and
  opening nothing. On such a file alone, \<^verbatim>\<open>convert\<close> returns the one mermaid link, or the
  empty mapping.
\<close>

theorem extension_of_dotless_name:
  "(CHR ''.'' \<notin> set ext \<longrightarrow> extension (stem @ ''.'' @ ext) = ''.'' @ ext)
   \<and> (CHR ''.'' \<notin> set (base_name file_name) \<longrightarrow>
        extension (base_name file_name) = ''.'' @ base_name file_name
        \<and> language_of file_name
            = (if base_name file_name = ''mmd'' then Some ''mermaid'' else None)
        \<and> convert_loop zlib_compress (file_name # rest) format verbosity replacements warnings w
            = (if base_name file_name = ''mmd'' then
                 (case convert_file zlib_compress file_name ''mermaid'' format verbosity w of
                    (Inl e, w1) \<Rightarrow> (Inl e, w1)
                  | (Inr url, w1) \<Rightarrow>
                      convert_loop zlib_compress rest format verbosity
                        (setitem replacements ''mmd'' url) warnings w1)
               else
                 convert_loop zlib_compress rest format verbosity replacements (warnings + 1)
                   (print (colored ((if verbosity \<ge> 1 then [tab] else []) @ ''Skipping ''
                                    @ file_name @ '' as it is not a supported diagram file'')
                             Yellow) w))
        \<and> (base_name file_name = ''mmd'' \<longrightarrow> files w file_name = Some data \<longrightarrow>
              fst (convert zlib_compress [file_name] format verbosity w)
                = Inr [(''mmd'', ''https://kroki.io/mermaid/'' @ format @ ''/''
                          @ map (\<lambda>b. char_of (unat b))
                              (urlsafe_b64encode (zlib_compress (encode_utf8 data) 9)))])
        \<and> (base_name file_name \<noteq> ''mmd'' \<longrightarrow>
              fst (convert zlib_compress [file_name] format verbosity w) = Inr []))"
proof (intro conjI impI)
  assume "CHR ''.'' \<notin> set ext"
  then show "extension (stem @ ''.'' @ ext) = ''.'' @ ext"
    using last_split [of "CHR ''.''" ext stem] by (simp add: extension_def)
next
  assume d: "CHR ''.'' \<notin> set (base_name file_name)"
  then show e: "extension (base_name file_name) = ''.'' @ base_name file_name"
    by (simp add: extension_def last_split_no_sep)
  show l: "language_of file_name
             = (if base_name file_name = ''mmd'' then Some ''mermaid'' else None)"
    by (simp add: language_of_def e diagram_types_def)
  show "convert_loop zlib_compress (file_name # rest) format verbosity replacements warnings w
            = (if base_name file_name = ''mmd'' then
                 (case convert_file zlib_compress file_name ''mermaid'' format verbosity w of
                    (Inl e, w1) \<Rightarrow> (Inl e, w1)
                  | (Inr url, w1) \<Rightarrow>
                      convert_loop zlib_compress rest format verbosity
                        (setitem replacements ''mmd'' url) warnings w1)
               else
                 convert_loop zlib_compress rest format verbosity replacements (warnings + 1)
                   (print (colored ((if verbosity \<ge> 1 then [tab] else []) @ ''Skipping ''
                                    @ file_name @ '' as it is not a supported diagram file'')
                             Yellow) w))"
  proof (cases "base_name file_name = ''mmd''")
    case True
    with l have s: "language_of file_name = Some ''mermaid''" by simp
    show ?thesis
      unfolding convert_loop_step_file [OF s] by (simp only: True if_True simp_thms)
  next
    case False
    with l have n: "language_of file_name = None" by simp
    show ?thesis
      unfolding convert_loop_step_skip [OF n] by (simp only: False if_False)
  qed
  {
    assume m: "base_name file_name = ''mmd''" and f: "files w file_name = Some data"
    from l m have s: "language_of file_name = Some ''mermaid''" by simp
    have "fst (convert_file zlib_compress file_name ''mermaid'' format verbosity w)
            = Inr (''https://kroki.io/mermaid/'' @ format @ ''/''
                          @ map (\<lambda>b. char_of (unat b))
                              (urlsafe_b64encode (zlib_compress (encode_utf8 data) 9)))"
      using f by (simp add: convert_file_fst korki_url_format_def)
    from convert_single [OF s this]
    have "fst (convert_loop zlib_compress [file_name] format verbosity [] 0 w)
            = Inr ([(''mmd'', ''https://kroki.io/mermaid/'' @ format @ ''/''
                          @ map (\<lambda>b. char_of (unat b))
                              (urlsafe_b64encode (zlib_compress (encode_utf8 data) 9)))], 0)"
      by (simp only: m)
    then show "fst (convert zlib_compress [file_name] format verbosity w)
                = Inr [(''mmd'', ''https://kroki.io/mermaid/'' @ format @ ''/''
                          @ map (\<lambda>b. char_of (unat b))
                              (urlsafe_b64encode (zlib_compress (encode_utf8 data) 9)))]"
      by (rule convert_of_convert_loop)
  }
  {
    assume "base_name file_name \<noteq> ''mmd''"
    with l have "language_of file_name = None" by simp
    then have "fst (convert_loop zlib_compress [file_name] format verbosity [] 0 w) = Inr ([], 1)"
      by (simp only: convert_loop_step_skip convert_loop.simps(1) fst_conv) simp
    then show "fst (convert zlib_compress [file_name] format verbosity w) = Inr []"
      by (rule convert_of_convert_loop)
  }
qed

theorem extension_of_dotless_name_witness:
  "CHR ''.'' \<notin> set ''mmd'' \<and> extension (''a.b'' @ ''.'' @ ''mmd'') = ''.mmd''
   \<and> CHR ''.'' \<notin> set (base_name ''dir/mmd'') \<and> language_of ''dir/mmd'' = Some ''mermaid''
   \<and> base_name ''dir/mmd'' = ''mmd''
   \<and> files \<lparr>files = [''dir/mmd'' \<mapsto> ''graph TD; A-->B;''], console = []\<rparr> ''dir/mmd''
       = Some ''graph TD; A-->B;''
   \<and> fst (convert example_compress [''dir/mmd''] ''svg'' 1
          \<lparr>files = [''dir/mmd'' \<mapsto> ''graph TD; A-->B;''], console = []\<rparr>)
       = Inr [(''mmd'', ''https://kroki.io/mermaid/svg/eNpLL0osyFAIcbFWcNTVtXOyBgArZAR8'')]
   \<and> CHR ''.'' \<notin> set (base_name ''dir/Makefile'') \<and> language_of ''dir/Makefile'' = None
   \<and> base_name ''dir/Makefile'' \<noteq> ''mmd''
   \<and> files \<lparr>files = [''dir/mmd'' \<mapsto> ''graph TD; A-->B;''], console = []\<rparr> ''dir/Makefile''
       = None
   \<and> fst (convert example_compress [''dir/Makefile''] ''svg'' 1
          \<lparr>files = [''dir/mmd'' \<mapsto> ''graph TD; A-->B;''], console = []\<rparr>) = Inr []"
proof -
  let ?w = "\<lparr>files = [''dir/mmd'' \<mapsto> ''graph TD; A-->B;''], console = []\<rparr>"
  have b1: "base_name ''dir/mmd'' = ''mmd''" by (simp add: base_name_def split_def)
  have b2: "base_name ''dir/Makefile'' = ''Makefile''" by (simp add: base_name_def split_def)
  have p: "map (\<lambda>b. char_of (unat b))
          (urlsafe_b64encode (example_compress (encode_utf8 ''graph TD; A-->B;'') 9))
        = ''eNpLL0osyFAIcbFWcNTVtXOyBgArZAR8''"
    by (simp only: example_payload ascii_encode_utf8)
  note t1 = extension_of_dotless_name [where ext = "''mmd''" and stem = "''a.b''"
      and file_name = "''dir/mmd''" and zlib_compress = example_compress and rest = "[]"
      and format = "''svg''" and verbosity = 1 and replacements = "[]" and warnings = 0
      and w = ?w and data = "''graph TD; A-->B;''"]
  note t2 = extension_of_dotless_name [where ext = "''mmd''" and stem = "''a.b''"
      and file_name = "''dir/Makefile''" and zlib_compress = example_compress and rest = "[]"
      and format = "''svg''" and verbosity = 1 and replacements = "[]" and warnings = 0
      and w = ?w and data = "''graph TD; A-->B;''"]
  have d0: "CHR ''.'' \<notin> set ''mmd''" by simp
  have d1: "CHR ''.'' \<notin> set (base_name ''dir/mmd'')" by (simp add: b1)
  have d2: "CHR ''.'' \<notin> set (base_name ''dir/Makefile'')" by (simp add: b2)
  have n2: "base_name ''dir/Makefile'' \<noteq> ''mmd''" by (simp add: b2)
  have f1: "files ?w ''dir/mmd'' = Some ''graph TD; A-->B;''" by simp
  have f2: "files ?w ''dir/Makefile'' = None" by simp
  have e: "extension (''a.b'' @ ''.'' @ ''mmd'') = ''.mmd''"
    using t1 [THEN conjunct1] d0 by simp
  from t1 [THEN conjunct2, rule_format, OF d1]
  have l1: "language_of ''dir/mmd'' = Some ''mermaid''"
    and c1: "fst (convert example_compress [''dir/mmd''] ''svg'' 1 ?w)
       = Inr [(''mmd'', ''https://kroki.io/mermaid/svg/eNpLL0osyFAIcbFWcNTVtXOyBgArZAR8'')]"
    using b1 f1 p by (simp_all del: convert_loop.simps)
  from t2 [THEN conjunct2, rule_format, OF d2]
  have l2: "language_of ''dir/Makefile'' = None"
    and c2: "fst (convert example_compress [''dir/Makefile''] ''svg'' 1 ?w) = Inr []"
    using n2 by (simp_all del: convert_loop.simps)
  show ?thesis
    using d0 e d1 l1 b1 f1 c1 d2 l2 n2 f2 c2 by (intro conjI)
qed

subsection \<open>The round trip of the payload\<close>

lemma byte_of_nat: "n mod 256 = unat b \<Longrightarrow> (of_nat n :: byte) = b"
proof -
  assume h: "n mod 256 = unat b"
  have "take_bit LENGTH(8) n = take_bit LENGTH(8) (unat b)"
    using h unat_byte [of b] by (simp add: take_bit_eq_mod)
  then have "(word_of_nat n :: byte) = word_of_nat (unat b)"
    by (simp only: word_of_nat_eq_iff)
  also have "\<dots> = b" by simp
  finally show ?thesis .
qed

lemma index_of_nth: "distinct xs \<Longrightarrow> i < length xs \<Longrightarrow> index_of (xs ! i) xs = Some i"
proof (induction xs arbitrary: i)
  case Nil
  then show ?case by simp
next
  case (Cons y ys)
  then show ?case by (cases i) auto
qed

lemma b64_table_distinct: "distinct b64_table"
  by (simp add: b64_table_def encode_utf8_def)

lemma b64_val_sym: "b64_val (b64_sym i) = Some (i mod 64)"
  by (simp add: b64_val_def b64_sym_def index_of_nth b64_table_distinct b64_table_length)

lemma b64_sym_not_pad: "b64_sym i \<noteq> b64_pad"
  using b64_table_ascii [OF b64_sym_in_table, of i] by (simp add: b64_pad_def)

lemma sextets:
  fixes n :: nat
  assumes "n < 16777216"
  shows "(n div 262144) mod 64 * 64 + (n div 4096) mod 64 = n div 4096"
    and "(n div 262144) mod 64 * 4096 + (n div 4096) mod 64 * 64 + (n div 64) mod 64 = n div 64"
    and "(n div 262144) mod 64 * 262144 + (n div 4096) mod 64 * 4096 + (n div 64) mod 64 * 64
           + n mod 64 = n"
proof -
  define x1 x2 x3 where "x1 = n div 64" and "x2 = n div 4096" and "x3 = n div 262144"
  define r0 r1 r2 where "r0 = n mod 64" and "r1 = x1 mod 64" and "r2 = x2 mod 64"
  have e0: "n = 64 * x1 + r0" by (simp add: x1_def r0_def)
  have "x2 = x1 div 64" by (simp add: x1_def x2_def div_mult2_eq [symmetric])
  then have e1: "x1 = 64 * x2 + r1" by (simp add: r1_def)
  have "x3 = x2 div 64" by (simp add: x2_def x3_def div_mult2_eq [symmetric])
  then have e2: "x2 = 64 * x3 + r2" by (simp add: r2_def)
  have "x3 < 64" using assms by (simp add: x3_def less_mult_imp_div_less)
  then have e3: "x3 mod 64 = x3" by simp
  have "x3 * 64 + r2 = x2" using e2 by linarith
  then show "(n div 262144) mod 64 * 64 + (n div 4096) mod 64 = n div 4096"
    by (simp only: e3 x2_def [symmetric] x3_def [symmetric] r2_def [symmetric])
  have "x3 * 4096 + r2 * 64 + r1 = x1" using e1 e2 by linarith
  then show "(n div 262144) mod 64 * 4096 + (n div 4096) mod 64 * 64 + (n div 64) mod 64
               = n div 64"
    by (simp only: e3 x1_def [symmetric] x2_def [symmetric] x3_def [symmetric]
        r1_def [symmetric] r2_def [symmetric])
  have "x3 * 262144 + r2 * 4096 + r1 * 64 + r0 = n" using e0 e1 e2 by linarith
  then show "(n div 262144) mod 64 * 262144 + (n div 4096) mod 64 * 4096
               + (n div 64) mod 64 * 64 + n mod 64 = n"
    by (simp only: e3 x1_def [symmetric] x2_def [symmetric] x3_def [symmetric]
        r0_def [symmetric] r1_def [symmetric] r2_def [symmetric])
qed

lemma bytes3:
  assumes "a < 256" "b < 256" "c < (256::nat)"
  shows "(a * 65536 + b * 256 + c) div 65536 mod 256 = a"
    and "(a * 65536 + b * 256 + c) div 256 mod 256 = b"
    and "(a * 65536 + b * 256 + c) mod 256 = c"
proof -
  have "(a * 65536 + b * 256 + c) div 65536 = a" using assms by (intro div_nat_eqI) simp_all
  then show "(a * 65536 + b * 256 + c) div 65536 mod 256 = a" using assms by simp
  have "(a * 65536 + b * 256 + c) div 256 = a * 256 + b" using assms by (intro div_nat_eqI) simp_all
  then show "(a * 65536 + b * 256 + c) div 256 mod 256 = b" using assms by simp
  have e: "a * 65536 + b * 256 + c = (a * 256 + b) * 256 + c" by simp
  have "((a * 256 + b) * 256 + c) mod 256 = c mod 256" by (rule mod_mult_self3)
  also have "\<dots> = c" using assms by simp
  finally show "(a * 65536 + b * 256 + c) mod 256 = c" by (simp only: e)
qed

lemma b64_quad3:
  assumes "n < 16777216"
  shows "b64_quad (b64_sym (n div 262144)) (b64_sym (n div 4096)) (b64_sym (n div 64)) (b64_sym n)
           = Some [of_nat (n div 65536), of_nat (n div 256), of_nat n]"
  unfolding b64_quad_def b64_val_sym
  by (simp only: sextets [OF assms] Let_def b64_sym_not_pad prod.case option.case if_False
      simp_thms)

lemma b64_quad2:
  assumes "n < 16777216"
  shows "b64_quad (b64_sym (n div 262144)) (b64_sym (n div 4096)) (b64_sym (n div 64)) b64_pad
           = Some [of_nat (n div 64 div 4 div 256), of_nat (n div 64 div 4)]"
  unfolding b64_quad_def b64_val_sym
  by (simp only: sextets [OF assms] Let_def b64_sym_not_pad prod.case option.case if_False
      if_True simp_thms)

lemma b64_quad1:
  assumes "n < 16777216"
  shows "b64_quad (b64_sym (n div 262144)) (b64_sym (n div 4096)) b64_pad b64_pad
           = Some [of_nat (n div 4096 div 16)]"
  unfolding b64_quad_def b64_val_sym
  by (simp only: sextets [OF assms] Let_def prod.case option.case if_True simp_thms)


lemma b64decode_b64encode: "b64decode (b64encode bs) = Some bs"
proof (induction bs rule: b64encode.induct)
  case 1
  then show ?case by simp
next
  case (2 a)
  define n where "n = unat a * 65536"
  have n: "n < 16777216" using unat_byte [of a] by (simp add: n_def)
  have "n div 4096 div 16 = unat a" by (simp add: n_def)
  then have "(of_nat (n div 4096 div 16) :: byte) = a" by simp
  then show ?case
    by (simp add: Let_def n_def [symmetric] b64_quad1 [OF n])
next
  case (3 a b)
  define n where "n = unat a * 65536 + unat b * 256"
  have n: "n < 16777216" using unat_byte [of a] unat_byte [of b] by (simp add: n_def)
  have d: "n div 64 div 4 = unat a * 256 + unat b" by (simp add: n_def)
  have "(unat a * 256 + unat b) div 256 mod 256 = unat a"
    using unat_byte [of a] unat_byte [of b] by simp
  then have 1: "(of_nat (n div 64 div 4 div 256) :: byte) = a"
    unfolding d by (rule byte_of_nat)
  have "(unat a * 256 + unat b) mod 256 = unat b"
    using unat_byte [of b] by simp
  then have 2: "(of_nat (n div 64 div 4) :: byte) = b"
    unfolding d by (rule byte_of_nat)
  show ?case
    by (simp add: Let_def n_def [symmetric] b64_quad2 [OF n] 1 2)
next
  case (4 a b c rest)
  define n where "n = unat a * 65536 + unat b * 256 + unat c"
  have n: "n < 16777216"
    using unat_byte [of a] unat_byte [of b] unat_byte [of c] by (simp add: n_def)
  note b = bytes3 [OF unat_byte [of a] unat_byte [of b] unat_byte [of c], folded n_def]
  have 1: "(of_nat (n div 65536) :: byte) = a" using b(1) by (rule byte_of_nat)
  have 2: "(of_nat (n div 256) :: byte) = b" using b(2) by (rule byte_of_nat)
  have 3: "(of_nat n :: byte) = c" using b(3) by (rule byte_of_nat)
  have e: "b64encode (a # b # c # rest) =
      b64_sym (n div 262144) # b64_sym (n div 4096) # b64_sym (n div 64) # b64_sym n
        # b64encode rest"
    by (simp add: Let_def n_def)
  show ?case
    unfolding e using "4.IH" by (auto simp: b64_quad3 [OF n] 1 2 3)
qed

lemma urlsafe_untranslate_translate:
  "b \<in> insert b64_pad (set b64_table) \<Longrightarrow> urlsafe_untranslate (urlsafe_translate b) = b"
  using b64_table_ascii [of b]
  by (auto simp: urlsafe_untranslate_def urlsafe_translate_def b64_pad_def)

lemma urlsafe_b64decode_payload:
  "urlsafe_b64decode (map (\<lambda>b. char_of (unat b)) (urlsafe_b64encode bs)) = Some bs"
proof -
  have "map urlsafe_untranslate (map urlsafe_translate (b64encode bs)) = b64encode bs"
    using b64encode_symbols [of bs]
    by (intro map_idI [THEN trans [OF map_map]]) (auto simp: urlsafe_untranslate_translate)
  then show ?thesis
    by (simp only: urlsafe_b64decode_def encode_utf8_ascii urlsafe_b64encode_def
        b64decode_b64encode)
qed

lemma payload_of_link:
  "CHR ''/'' \<notin> set encoded \<Longrightarrow> payload (korki_url_format ftype format encoded) = encoded"
proof -
  assume n: "CHR ''/'' \<notin> set encoded"
  have e: "korki_url_format ftype format encoded
          = (''https://kroki.io/'' @ ftype @ ''/'' @ format) @ CHR ''/'' # encoded"
    by (simp add: korki_url_format_def)
  show ?thesis
    unfolding payload_def e by (rule last_split [OF n])
qed

lemma urlsafe_no_slash:
  "CHR ''/'' \<notin> set (map (\<lambda>b. char_of (unat b)) (urlsafe_b64encode bs))"
proof -
  have "set (map (\<lambda>b. char_of (unat b)) (urlsafe_b64encode bs))
          \<subseteq> set urlsafe_alphabet \<union> {CHR ''=''}"
    using b64encode_symbols [of bs] urlsafe_symbol
    unfolding urlsafe_b64encode_def by auto
  moreover have "CHR ''/'' \<notin> set urlsafe_alphabet \<union> {CHR ''=''}"
    by (simp add: urlsafe_alphabet_def)
  ultimately show ?thesis by blast
qed

lemma example_round_trip: "example_decompress (example_compress bs 9) = Some bs"
  by (simp add: example_decompress_def example_compress_def)

text \<open>
  Claim C3. For every content, the payload of the link the encoder returns, decoded with the
  URL-safe base64 alphabet and then inflated, gives back the UTF-8 bytes of the content. The
  compressor is a parameter of the model; what the theorem takes from the library is that
  inflating undoes compression at level 9.
\<close>

theorem payload_round_trip:
  assumes "\<forall>bs. zlib_decompress (zlib_compress bs 9) = Some bs"
    and "files w file_name = Some content"
  shows "\<exists>link. fst (convert_file zlib_compress file_name ftype format verbosity w) = Inr link
           \<and> Option.bind (urlsafe_b64decode (payload link)) zlib_decompress
               = Some (encode_utf8 content)"
proof -
  define encoded where "encoded = map (\<lambda>b. char_of (unat b))
     (urlsafe_b64encode (zlib_compress (encode_utf8 content) 9))"
  have l: "fst (convert_file zlib_compress file_name ftype format verbosity w)
             = Inr (korki_url_format ftype format encoded)"
    using assms(2) by (simp add: convert_file_fst encoded_def)
  have "payload (korki_url_format ftype format encoded) = encoded"
    unfolding encoded_def by (rule payload_of_link) (rule urlsafe_no_slash)
  then have "Option.bind (urlsafe_b64decode (payload (korki_url_format ftype format encoded)))
                zlib_decompress = Some (encode_utf8 content)"
    using assms(1) by (simp add: encoded_def urlsafe_b64decode_payload)
  with l show ?thesis by blast
qed

theorem payload_round_trip_witness:
  "(\<forall>bs. example_decompress (example_compress bs 9) = Some bs)
   \<and> files \<lparr>files = [''diagrams/a.mmd'' \<mapsto> ''graph TD; A-->B;''], console = []\<rparr>
         ''diagrams/a.mmd'' = Some ''graph TD; A-->B;''
   \<and> fst (convert_file example_compress ''diagrams/a.mmd'' ''mermaid'' ''svg'' 1
          \<lparr>files = [''diagrams/a.mmd'' \<mapsto> ''graph TD; A-->B;''], console = []\<rparr>)
       = Inr ''https://kroki.io/mermaid/svg/eNpLL0osyFAIcbFWcNTVtXOyBgArZAR8''
   \<and> payload ''https://kroki.io/mermaid/svg/eNpLL0osyFAIcbFWcNTVtXOyBgArZAR8''
       = ''eNpLL0osyFAIcbFWcNTVtXOyBgArZAR8''
   \<and> Option.bind (urlsafe_b64decode ''eNpLL0osyFAIcbFWcNTVtXOyBgArZAR8'') example_decompress
       = Some (encode_utf8 ''graph TD; A-->B;'')"
proof -
  let ?w = "\<lparr>files = [''diagrams/a.mmd'' \<mapsto> ''graph TD; A-->B;''], console = []\<rparr>"
  have h: "\<forall>bs. example_decompress (example_compress bs 9) = Some bs"
    by (simp add: example_round_trip)
  have f: "files ?w ''diagrams/a.mmd'' = Some ''graph TD; A-->B;''" by simp
  have "map (\<lambda>b. char_of (unat b))
          (urlsafe_b64encode (example_compress (encode_utf8 ''graph TD; A-->B;'') 9))
        = ''eNpLL0osyFAIcbFWcNTVtXOyBgArZAR8''"
    by (simp only: example_payload ascii_encode_utf8)
  then have c: "fst (convert_file example_compress ''diagrams/a.mmd'' ''mermaid'' ''svg'' 1 ?w)
       = Inr ''https://kroki.io/mermaid/svg/eNpLL0osyFAIcbFWcNTVtXOyBgArZAR8''"
    by (simp add: convert_file_fst korki_url_format_def)
  have p: "payload ''https://kroki.io/mermaid/svg/eNpLL0osyFAIcbFWcNTVtXOyBgArZAR8''
       = ''eNpLL0osyFAIcbFWcNTVtXOyBgArZAR8''"
    by (simp add: payload_def split_def)
  from payload_round_trip [where zlib_decompress = example_decompress
      and zlib_compress = example_compress and w = ?w and file_name = "''diagrams/a.mmd''"
      and content = "''graph TD; A-->B;''" and ftype = "''mermaid''" and format = "''svg''"
      and verbosity = 1, OF h f] c
  have "Option.bind (urlsafe_b64decode
           (payload ''https://kroki.io/mermaid/svg/eNpLL0osyFAIcbFWcNTVtXOyBgArZAR8''))
          example_decompress = Some (encode_utf8 ''graph TD; A-->B;'')"
    by auto
  then have d: "Option.bind (urlsafe_b64decode ''eNpLL0osyFAIcbFWcNTVtXOyBgArZAR8'')
          example_decompress = Some (encode_utf8 ''graph TD; A-->B;'')"
    by (simp only: p)
  show ?thesis
    using h f c p d by (intro conjI)
qed

end
